theory Spec2Isabelle
  imports Main "HOL-Library.Word"
begin

unbundle bit_operations_syntax

section \<open>Common conventions\<close>

text \<open>
  A Go byte is a \<^typ>\<open>char\<close> (eight bits), so a \<^verbatim>\<open>[]byte\<close> and a Go
  \<^verbatim>\<open>string\<close> are both a \<^typ>\<open>char list\<close>.  A Go \<^verbatim>\<open>int\<close> is modelled by
  \<^typ>\<open>int\<close>: every value the modelled code computes stays far inside 64 bits, so
  no wrap-around is involved.  Indexing a slice out of range is a run-time panic in Go;
  \<open>index_at\<close> returns \<open>None\<close> there and every caller turns \<open>None\<close> into the panic.
\<close>

type_synonym byte = char

abbreviation backslash :: char where
  "backslash \<equiv> CHR 0x5C"

definition index_at :: "'a list \<Rightarrow> int \<Rightarrow> 'a option" where
  "index_at xs i = (if 0 \<le> i \<and> i < int (length xs) then Some (xs ! nat i) else None)"

definition in_range :: "'a list \<Rightarrow> int \<Rightarrow> bool" where
  "in_range xs i = (0 \<le> i \<and> i < int (length xs))"

definition store_at :: "'a list \<Rightarrow> int \<Rightarrow> 'a \<Rightarrow> 'a list" where
  "store_at xs i v = xs[nat i := v]"

section \<open>decompress.go\<close>

datatype decompress_error = InvalidHeader | SizeMismatch | CrcFailed | UnknownMagic

text \<open>
  The three ways a call of \<^verbatim>\<open>Decompress\<close> can end: it returns bytes, it returns
  one of its four \<^verbatim>\<open>errors.New\<close> values, or the Go run time panics (index out of
  range), which is not a returned value.
\<close>

datatype 'a go_result = Ok 'a | Error decompress_error | Panic

definition MAGIC_COMPRESSED :: int where
  "MAGIC_COMPRESSED = 0x75465a4c"

definition MAGIC_UNCOMPRESSED :: int where
  "MAGIC_UNCOMPRESSED = 0x414c454d"

definition DICT_SIZE :: int where
  "DICT_SIZE = 4096"

definition DICT_MASK :: int where
  "DICT_MASK = DICT_SIZE - 1"

text \<open>\<^verbatim>\<open>shiftZeroLeft(i, positions)\<close> is Go's \<^verbatim>\<open>i >> positions\<close> on a signed int.\<close>

definition shiftZeroLeft :: "int \<Rightarrow> nat \<Rightarrow> int" where
  "shiftZeroLeft i positions = drop_bit positions i"

text \<open>The table built by \<^verbatim>\<open>init()\<close>: the inner loop over \<open>j\<close>, then one entry per \<open>i\<close>.\<close>

fun crc_table_bits :: "nat \<Rightarrow> int \<Rightarrow> int" where
  "crc_table_bits 0 c = c"
| "crc_table_bits (Suc j) c =
     crc_table_bits j
       (if c AND 1 = 1 then 0xEDB88320 XOR shiftZeroLeft c 1 else shiftZeroLeft c 1)"

definition CRC32_TABLE :: "int list" where
  "CRC32_TABLE = map (\<lambda>i. crc_table_bits 8 (int i)) [0..<256]"

function calculateCRC32Continue :: "byte list \<Rightarrow> int \<Rightarrow> int \<Rightarrow> int \<Rightarrow> int option" where
  "calculateCRC32Continue buf i end' crc =
     (if i < end' then
        (case index_at buf i of
           None \<Rightarrow> None
         | Some b \<Rightarrow>
             (case index_at CRC32_TABLE ((crc XOR of_char b) AND 0xFF) of
                None \<Rightarrow> None
              | Some t \<Rightarrow> calculateCRC32Continue buf (i + 1) end' (t XOR shiftZeroLeft crc 8)))
      else Some crc)"
  by pat_completeness auto
termination
  by (relation "measure (\<lambda>(buf, i, end', crc). nat (end' - i))") auto

declare calculateCRC32Continue.simps [simp del]

definition calculateCRC32 :: "byte list \<Rightarrow> int \<Rightarrow> int \<Rightarrow> int option" where
  "calculateCRC32 buf off l = calculateCRC32Continue buf off (off + l) 0"

definition getU32 :: "byte list \<Rightarrow> int \<Rightarrow> int option" where
  "getU32 buf offset =
     (case (index_at buf offset, index_at buf (offset + 1),
            index_at buf (offset + 2), index_at buf (offset + 3)) of
        (Some t0, Some t1, Some t2, Some t3) \<Rightarrow>
          Some (((of_char t0 AND 0xFF) OR push_bit 8 (of_char t1 AND 0xFF)
                 OR push_bit 16 (of_char t2 AND 0xFF) OR push_bit 24 (of_char t3 AND 0xFF))
                AND 0xFFFFFFFF)
      | _ \<Rightarrow> None)"

definition COMPRESSED_RTF_PREBUF :: "byte list" where
  "COMPRESSED_RTF_PREBUF =
     ''{'' @ backslash # ''rtf1'' @ backslash # ''ansi'' @ backslash # ''mac''
     @ backslash # ''deff0'' @ backslash # ''deftab720{'' @ backslash # ''fonttbl;}''
     @ ''{'' @ backslash # ''f0'' @ backslash # ''fnil '' @ backslash # ''froman ''
     @ backslash # ''fswiss '' @ backslash # ''fmodern '' @ backslash # ''fscript ''
     @ backslash # ''fdecor MS Sans SerifSymbolArialTimes New RomanCourier''
     @ ''{'' @ backslash # ''colortbl'' @ backslash # ''red0'' @ backslash # ''green0''
     @ backslash # ''blue0'' @ [CHR 0x0A, CHR 0x0D] @ backslash # ''par ''
     @ backslash # ''pard'' @ backslash # ''plain'' @ backslash # ''f0'' @ backslash # ''fs20''
     @ backslash # ''b'' @ backslash # ''i'' @ backslash # ''u'' @ backslash # ''tab''
     @ backslash # ''tx''"

text \<open>
  The inner copy loop of a back-reference, \<^verbatim>\<open>for offset < end { dst[out] = dst[offset]; ... }\<close>.
  \<open>None\<close> is the index-out-of-range panic of either subscript.
\<close>

function copyLoop :: "byte list \<Rightarrow> int \<Rightarrow> int \<Rightarrow> int \<Rightarrow> (byte list \<times> int) option" where
  "copyLoop dst out offset end' =
     (if offset < end' then
        (case index_at dst offset of
           None \<Rightarrow> None
         | Some v \<Rightarrow>
             if in_range dst out
             then copyLoop (store_at dst out v) (out + 1) (offset + 1) end'
             else None)
      else Some (dst, out))"
  by pat_completeness auto
termination
  by (relation "measure (\<lambda>(dst, out, offset, end'). nat (end' - offset))") auto

declare copyLoop.simps [simp del]

text \<open>
  The head of one iteration of the decode loop: a fresh flag byte is read every eighth
  element, otherwise the flags are shifted.  The result is the new \<open>flags\<close> and \<open>in\<close>.
\<close>

definition nextFlags :: "byte list \<Rightarrow> int \<Rightarrow> int \<Rightarrow> int \<Rightarrow> (int \<times> int) option" where
  "nextFlags src in' flagCount flags =
     (if flagCount AND 7 = 0
      then (case index_at src in' of None \<Rightarrow> None | Some b \<Rightarrow> Some (of_char b, in' + 1))
      else Some (drop_bit 1 flags, in'))"

text \<open>
  The reference's absolute offset, before the comparison with \<open>out\<close>:
  \<^verbatim>\<open>offset = (offset << 4) | shiftZeroLeft(length, 4); offset = out & ^DICT_MASK | offset\<close>.
\<close>

definition refOffset :: "int \<Rightarrow> byte \<Rightarrow> byte \<Rightarrow> int" where
  "refOffset out hi lo =
     ((out AND NOT DICT_MASK)
      OR (push_bit 4 (of_char hi AND 0xFF) OR shiftZeroLeft (of_char lo AND 0xFF) 4))"

definition refLength :: "byte \<Rightarrow> int" where
  "refLength lo = ((of_char lo AND 0xFF) AND 0xF) + 2"

lemma index_at_SomeD: "index_at xs i = Some v \<Longrightarrow> 0 \<le> i \<and> i < int (length xs)"
  by (simp add: index_at_def split: if_splits)

lemma nextFlags_SomeD: "nextFlags src in' flagCount flags = Some (flags1, in1) \<Longrightarrow> in' \<le> in1"
  by (auto simp add: nextFlags_def split: if_splits option.splits)

function decodeLoop ::
  "byte list \<Rightarrow> byte list \<Rightarrow> int \<Rightarrow> int \<Rightarrow> int \<Rightarrow> int \<Rightarrow> byte list option" where
  "decodeLoop src dst in' out flagCount flags =
     (case nextFlags src in' flagCount flags of
        None \<Rightarrow> None
      | Some (flags1, in1) \<Rightarrow>
          if flags1 AND 1 = 0 then
            (case index_at src in1 of
               None \<Rightarrow> None
             | Some b \<Rightarrow>
                 if in_range dst out
                 then decodeLoop src (store_at dst out b) (in1 + 1) (out + 1) (flagCount + 1) flags1
                 else None)
          else
            (case index_at src in1 of
               None \<Rightarrow> None
             | Some hi \<Rightarrow>
                 (case index_at src (in1 + 1) of
                    None \<Rightarrow> None
                  | Some lo \<Rightarrow>
                      let offset = refOffset out hi lo; length' = refLength lo in
                      if offset \<ge> out \<and> offset = out then Some dst
                      else
                        let offset1 = (if offset \<ge> out then offset - DICT_SIZE else offset) in
                        (case copyLoop dst out offset1 (offset1 + length') of
                           None \<Rightarrow> None
                         | Some (dst1, out1) \<Rightarrow>
                             decodeLoop src dst1 (in1 + 2) out1 (flagCount + 1) flags1))))"
  by pat_completeness auto
termination
proof (relation "measure (\<lambda>(src, dst, in', out, flagCount, flags). nat (int (length src) - in'))",
    goal_cases)
  case 1
  show ?case by simp
next
  case (2 src dst in' out flagCount flags x2 flags1 in1 b)
  from 2 have "in' \<le> in1" by (auto dest: nextFlags_SomeD)
  moreover from 2 have "0 \<le> in1 \<and> in1 < int (length src)" by (auto dest: index_at_SomeD)
  ultimately show ?case by simp
next
  case (3 src dst in' out flagCount flags x2 flags1 in1 hi lo offset length' offset1 x2a dst1 out1)
  from 3 have "in' \<le> in1" by (auto dest: nextFlags_SomeD)
  moreover from 3 have "0 \<le> in1 \<and> in1 < int (length src)" by (auto dest: index_at_SomeD)
  ultimately show ?case by simp
qed

declare decodeLoop.simps [simp del]

definition Decompress :: "byte list \<Rightarrow> byte list go_result" where
  "Decompress src =
     (if length src < 16 then Error InvalidHeader
      else
        (case (getU32 src 0, getU32 src 4, getU32 src 8, getU32 src 12) of
           (Some compressedSize, Some uncompressedSize, Some magic, Some crc32sum) \<Rightarrow>
             if compressedSize \<noteq> int (length src) - 4 then Error SizeMismatch
             else if magic = MAGIC_UNCOMPRESSED then Ok src
             else if magic = MAGIC_COMPRESSED then
               (case calculateCRC32 src 16 (int (length src) - 16) of
                  None \<Rightarrow> Panic
                | Some crc \<Rightarrow>
                    if crc32sum \<noteq> crc then Error CrcFailed
                    else
                      let out = int (length COMPRESSED_RTF_PREBUF);
                          dst = COMPRESSED_RTF_PREBUF @ replicate (nat uncompressedSize) (CHR 0x00)
                      in (case decodeLoop src dst 16 out 0 0 of
                            None \<Rightarrow> Panic
                          | Some dst1 \<Rightarrow> Ok (drop (length COMPRESSED_RTF_PREBUF) dst1)))
             else Error UnknownMagic
         | _ \<Rightarrow> Panic))"

text \<open>
  A second definition of the checksum, written from the words of the specification and not
  from the code: the CRC-32 of RFC 1952 (reflected polynomial \<open>0xEDB88320\<close>, one bit at
  a time, eight bits per byte) with the initial value \<open>0\<close> and no final inversion.  It is
  compared with the table-driven \<open>calculateCRC32\<close> of the source below.
\<close>

definition crc32_bit_step :: "int \<Rightarrow> int" where
  "crc32_bit_step c = (if odd c then drop_bit 1 c XOR 0xEDB88320 else drop_bit 1 c)"

fun crc32_bitwise_from :: "int \<Rightarrow> byte list \<Rightarrow> int" where
  "crc32_bitwise_from crc [] = crc"
| "crc32_bitwise_from crc (b # bs) =
     crc32_bitwise_from ((crc32_bit_step ^^ 8) (crc XOR of_char b)) bs"

definition crc32_no_inversion :: "byte list \<Rightarrow> int" where
  "crc32_no_inversion bs = crc32_bitwise_from 0 bs"

text \<open>
  Two concrete compressed streams used to exercise the decoder: a header (compressed size
  16, uncompressed size 1, the compressed magic, the checksum of the payload) followed by
  the payload \<open>02 41 0D 00\<close>, that is one flag byte, the literal \<open>A\<close> and a
  back-reference to offset \<open>0x0D0 = 208\<close>; and the same stream with a zero checksum.
\<close>

definition stream_literal_A :: "byte list" where
  "stream_literal_A =
     [CHR 0x10, CHR 0x00, CHR 0x00, CHR 0x00, CHR 0x01, CHR 0x00, CHR 0x00, CHR 0x00,
      CHR 0x4C, CHR 0x5A, CHR 0x46, CHR 0x75, CHR 0x31, CHR 0x51, CHR 0xff, CHR 0x6e,
      CHR 0x02, CHR 0x41, CHR 0x0D, CHR 0x00]"

definition stream_literal_A_bad_crc :: "byte list" where
  "stream_literal_A_bad_crc =
     [CHR 0x10, CHR 0x00, CHR 0x00, CHR 0x00, CHR 0x01, CHR 0x00, CHR 0x00, CHR 0x00,
      CHR 0x4C, CHR 0x5A, CHR 0x46, CHR 0x75, CHR 0x00, CHR 0x00, CHR 0x00, CHR 0x00,
      CHR 0x02, CHR 0x41, CHR 0x0D, CHR 0x00]"

text \<open>The first stream again, with the header field \<open>uncompressedSize\<close> set to 0.\<close>

definition stream_literal_A_size0 :: "byte list" where
  "stream_literal_A_size0 =
     [CHR 0x10, CHR 0x00, CHR 0x00, CHR 0x00, CHR 0x00, CHR 0x00, CHR 0x00, CHR 0x00,
      CHR 0x4C, CHR 0x5A, CHR 0x46, CHR 0x75, CHR 0x31, CHR 0x51, CHR 0xff, CHR 0x6e,
      CHR 0x02, CHR 0x41, CHR 0x0D, CHR 0x00]"

section \<open>The token tree (the element types and \<^verbatim>\<open>rtfGroup\<close> predicates)\<close>

text \<open>
  The four element types behind the interface \<^verbatim>\<open>rtfElement\<close>.  The \<^verbatim>\<open>parent\<close>
  pointers are used by the tokenizer only, to find the group to return to at a closing
  brace; there they are modelled by the stack of open groups.
\<close>

datatype rtfElement =
    RtfGroup "rtfElement list"
  | RtfControlWord string string
  | RtfControlSymbol string string
  | RtfText "byte list"

fun CheckChildAtIndex :: "rtfElement list \<Rightarrow> nat \<Rightarrow> string \<Rightarrow> bool" where
  "CheckChildAtIndex children idx checkWord =
     (if idx < length children then
        (case children ! idx of
           RtfControlSymbol symbol parameter \<Rightarrow> symbol = checkWord
         | RtfControlWord word parameter \<Rightarrow> word = checkWord
         | _ \<Rightarrow> False)
      else False)"

definition IsDestination :: "rtfElement list \<Rightarrow> bool" where
  "IsDestination children = CheckChildAtIndex children 0 ''*''"

definition IsFontTable :: "rtfElement list \<Rightarrow> bool" where
  "IsFontTable children = CheckChildAtIndex children 0 ''fonttbl''"

definition IsStylesheet :: "rtfElement list \<Rightarrow> bool" where
  "IsStylesheet children = CheckChildAtIndex children 0 ''stylesheet''"

definition IsListtables :: "rtfElement list \<Rightarrow> bool" where
  "IsListtables children = CheckChildAtIndex children 0 ''listtables''"

definition IsInfo :: "rtfElement list \<Rightarrow> bool" where
  "IsInfo children = CheckChildAtIndex children 0 ''info''"

definition IsFilesTable :: "rtfElement list \<Rightarrow> bool" where
  "IsFilesTable children = (IsDestination children \<and> CheckChildAtIndex children 1 ''filetbl'')"

definition IsTrackChanges :: "rtfElement list \<Rightarrow> bool" where
  "IsTrackChanges children =
     ((IsDestination children \<and> CheckChildAtIndex children 1 ''revtbl'')
      \<or> CheckChildAtIndex children 0 ''revtbl'')"

definition IsColorTable :: "rtfElement list \<Rightarrow> bool" where
  "IsColorTable children = CheckChildAtIndex children 0 ''colortbl''"

definition IsFontInfo :: "rtfElement list \<Rightarrow> bool" where
  "IsFontInfo children = CheckChildAtIndex children 0 ''f''"

definition IsFontAlternative :: "rtfElement list \<Rightarrow> bool" where
  "IsFontAlternative children = (IsDestination children \<and> CheckChildAtIndex children 1 ''falt'')"

text \<open>
  \<^verbatim>\<open>strconv.Atoi\<close> on a 64-bit platform: an optional sign, then at least one decimal
  digit and nothing else; a value outside the range of \<^verbatim>\<open>int\<close> is an error.
\<close>

definition isDecimalDigit :: "char \<Rightarrow> bool" where
  "isDecimalDigit c = (48 \<le> (of_char c :: nat) \<and> (of_char c :: nat) \<le> 57)"

definition decimalValue :: "string \<Rightarrow> int" where
  "decimalValue ds = foldl (\<lambda>n c. 10 * n + (of_char c - 48)) 0 ds"

definition Atoi :: "string \<Rightarrow> int option" where
  "Atoi s =
     (let neg = (s \<noteq> [] \<and> hd s = CHR ''-'');
          ds = (if s \<noteq> [] \<and> (hd s = CHR ''-'' \<or> hd s = CHR ''+'') then tl s else s)
      in if ds = [] \<or> \<not> list_all isDecimalDigit ds then None
         else let n = decimalValue ds
              in if neg then (if n \<le> 2 ^ 63 then Some (- n) else None)
                 else (if n < 2 ^ 63 then Some n else None))"

definition GetIntParameter :: "string \<Rightarrow> int" where
  "GetIntParameter parameter =
     (if parameter = '''' then 1
      else (case Atoi parameter of Some p \<Rightarrow> p | None \<Rightarrow> 1))"

text \<open>\<^verbatim>\<open>IsValid\<close>: the root's first child is the control word \<^verbatim>\<open>rtf\<close> with parameter \<^verbatim>\<open>1\<close>.\<close>

definition IsValid :: "rtfElement list \<Rightarrow> bool" where
  "IsValid children =
     (if length children > 0 then
        (case children ! 0 of
           RtfControlWord word parameter \<Rightarrow> word = ''rtf'' \<and> parameter = ''1''
         | _ \<Rightarrow> False)
      else False)"

subsection \<open>Encapsulation detection\<close>

text \<open>
  \<^verbatim>\<open>IsHtmlEncapsulated\<close> and \<^verbatim>\<open>IsTextEncapsulated\<close> differ in the word they look for
  only.  The argument is \<^verbatim>\<open>rtfObj.Root.GetChildren()\<close>.  One pass of the inner
  \<^verbatim>\<open>for _, item := range children\<close> either returns \<^verbatim>\<open>true\<close> (\<open>Found\<close>) or leaves the
  counter advanced by one per child (\<open>Counted\<close>); the outer \<^verbatim>\<open>for\<close> repeats the pass
  until the counter exceeds 10.  The outer loop has no other exit, so it is a partial
  function: \<open>None\<close> means that the call never returns.
\<close>

datatype scan_pass = Found | Counted int

fun scanChildren :: "string \<Rightarrow> rtfElement list \<Rightarrow> int \<Rightarrow> scan_pass" where
  "scanChildren w [] idx = Counted idx"
| "scanChildren w (RtfControlWord word parameter # items) idx =
     (if word = w then Found else scanChildren w items (idx + 1))"
| "scanChildren w (item # items) idx = scanChildren w items (idx + 1)"

partial_function (option) encapsulatedLoop :: "string \<Rightarrow> rtfElement list \<Rightarrow> int \<Rightarrow> bool option" where
  "encapsulatedLoop w children idx =
     (case scanChildren w children idx of
        Found \<Rightarrow> Some True
      | Counted idx1 \<Rightarrow> if idx1 > 10 then Some False else encapsulatedLoop w children idx1)"

definition IsHtmlEncapsulated :: "rtfElement list \<Rightarrow> bool option" where
  "IsHtmlEncapsulated children = encapsulatedLoop ''fromhtml'' children 0"

definition IsTextEncapsulated :: "rtfElement list \<Rightarrow> bool option" where
  "IsTextEncapsulated children = encapsulatedLoop ''fromtext'' children 0"

section \<open>The HTML-encapsulated interpreter\<close>

subsection \<open>utils.go: encodings\<close>

definition rtfEncodeCodePageMap :: "(string \<times> string) list" where
  "rtfEncodeCodePageMap =
     [(''ansi'', ''CP1252''), (''mac'', ''MAC''), (''pc'', ''CP437''), (''pca'', ''CP850''),
      (''437'', ''CP437''), (''708'', ''ASMO-708''), (''819'', ''CP819''), (''850'', ''CP850''),
      (''852'', ''CP852''), (''860'', ''CP860''), (''862'', ''CP862''), (''863'', ''CP863''),
      (''864'', ''CP864''), (''865'', ''CP865''), (''866'', ''CP866''), (''874'', ''CP874''),
      (''932'', ''CP932''), (''936'', ''CP936''), (''949'', ''CP949''), (''950'', ''CP950''),
      (''1250'', ''CP1250''), (''1251'', ''CP1251''), (''1252'', ''CP1252''),
      (''1253'', ''CP1253''), (''1254'', ''CP1254''), (''1255'', ''CP1255''),
      (''1256'', ''CP1256''), (''1257'', ''CP1257''), (''1258'', ''CP1258''),
      (''1361'', ''CP1361'')]"

text \<open>The error result of \<^verbatim>\<open>GetEncodingFromCodepage\<close> is dropped by every caller.\<close>

definition GetEncodingFromCodepage :: "string \<Rightarrow> string" where
  "GetEncodingFromCodepage code =
     (case map_of rtfEncodeCodePageMap code of Some val \<Rightarrow> val | None \<Rightarrow> '''')"

text \<open>
  \<^verbatim>\<open>ConvertToUtf8\<close> picks a decoder of the library \<^verbatim>\<open>golang.org/x/text\<close> by the
  encoding's name and leaves the bytes as they are when it has none (the case
  \<^verbatim>\<open>CP864\<close> has an empty body).  The library is not part of the repository: its
  decoders are the parameter \<open>dec\<close>, from the decoder's name and the bytes to the decoded
  bytes.  The callers drop the error result.
\<close>

definition decoderOf :: "(string \<times> string) list" where
  "decoderOf =
     [(''MAC'', ''charmap.Macintosh''), (''CP437'', ''charmap.CodePage437''),
      (''ASMO-708'', ''charmap.ISO8859_6''), (''CP819'', ''charmap.ISO8859_1''),
      (''CP850'', ''charmap.CodePage850''), (''CP852'', ''charmap.CodePage852''),
      (''CP860'', ''charmap.CodePage860''), (''CP862'', ''charmap.CodePage862''),
      (''CP863'', ''charmap.CodePage863''), (''CP865'', ''charmap.CodePage865''),
      (''CP866'', ''charmap.CodePage866''), (''CP874'', ''charmap.Windows874''),
      (''CP932'', ''japanese.ShiftJIS''), (''CP936'', ''simplifiedchinese.GBK''),
      (''CP949'', ''korean.EUCKR''), (''CP950'', ''traditionalchinese.Big5''),
      (''CP1250'', ''charmap.Windows1250''), (''CP1251'', ''charmap.Windows1251''),
      (''CP1252'', ''charmap.Windows1252''), (''CP1253'', ''charmap.Windows1253''),
      (''CP1254'', ''charmap.Windows1254''), (''CP1255'', ''charmap.Windows1255''),
      (''CP1256'', ''charmap.Windows1256''), (''CP1257'', ''charmap.Windows1257''),
      (''CP1258'', ''charmap.Windows1258''), (''CP1361'', ''korean.EUCKR'')]"

definition ConvertToUtf8 :: "(string \<Rightarrow> byte list \<Rightarrow> byte list) \<Rightarrow> byte list \<Rightarrow> string \<Rightarrow> byte list" where
  "ConvertToUtf8 dec b srcEncoding =
     (case map_of decoderOf srcEncoding of Some name \<Rightarrow> dec name b | None \<Rightarrow> b)"

subsection \<open>The character-property state\<close>

record rtfState =
  states :: "string \<rightharpoonup> string"

definition NewRtfState :: rtfState where
  "NewRtfState = \<lparr>states = Map.empty\<rparr>"

text \<open>
  \<^verbatim>\<open>copy\<close>: the loop \<^verbatim>\<open>for i,v := range c1.states { c1.states[i] = v }\<close> ranges over
  the map of the new state \<^verbatim>\<open>c1\<close>, not over the receiver's: it stores each entry of
  \<open>c1\<close> into \<open>c1\<close> again, and the receiver \<open>c\<close> is never read.
\<close>

definition copy :: "rtfState \<Rightarrow> rtfState" where
  "copy c = (let c1 = NewRtfState in c1\<lparr>states := states c1 ++ states c1\<rparr>)"

definition stateExists :: "rtfState \<Rightarrow> string \<Rightarrow> bool" where
  "stateExists c word = (states c word \<noteq> None)"

definition stateValue :: "rtfState \<Rightarrow> string \<Rightarrow> string" where
  "stateValue c word = (case states c word of Some v \<Rightarrow> v | None \<Rightarrow> '''')"

text \<open>\<^verbatim>\<open>DetectWordState\<close>: the scope and the value type of a state word, both empty for any other word.\<close>

definition DetectWordState :: "string \<Rightarrow> string \<times> string" where
  "DetectWordState word =
     (if word = ''htmlrtf'' then (''other'', ''flag'')
      else if word \<in> set [''b'', ''i'', ''v'', ''ul'', ''uldone'', ''strike'', ''super'']
        then (''style'', ''flag'')
      else if word \<in> set [''f'', ''fs'', ''chcfpat'', ''cf'', ''cb'', ''chcbpat'']
        then (''style'', ''value'')
      else ('''', ''''))"

subsection \<open>The interpreter\<close>

record rtfFontTableItem =
  charsetIndex :: int
  familyCode :: string
  familyName :: string
  familyAlternativeName :: string

datatype rtfColor = RtfColor int int int

text \<open>
  The fields of \<^verbatim>\<open>rtfHtmlEncapsulatedInterpreter\<close>.  A Go map is a reference, and
  \<open>groupCurrentState\<close> and the entries of \<open>groupsInitialStates\<close> are structs that hold
  one; the record holds the maps as values.  This is faithful because every map that the
  code puts on the stack is a fresh one made by \<^verbatim>\<open>copy\<close>, a map on the stack is never
  written (\<^verbatim>\<open>updateState\<close> writes the current state only), and a map becomes the current
  state at the moment its stack entry is removed, so no two live references share a map.
  The zero value of the struct has a nil map, which cannot be written; \<^verbatim>\<open>Parse\<close> starts
  from an empty stack, so the root group installs \<^verbatim>\<open>NewRtfState()\<close> before any write.
  \<^verbatim>\<open>openState\<close>, \<^verbatim>\<open>closeState\<close>, \<^verbatim>\<open>openTag\<close> and \<^verbatim>\<open>closeTag\<close> are never called
  (every call is commented out) and are left out.
\<close>

record rtfHtmlEncapsulatedInterpreter =
  content :: "byte list"
  insideHtmlTagGroup :: int
  rtfEncoding :: string
  defaultFont :: int
  fontTable :: "int \<rightharpoonup> rtfFontTableItem"
  colorTable :: "rtfColor list"
  styleTag :: string
  groupsInitialStates :: "rtfState list"
  groupPreviousState :: rtfState
  groupCurrentState :: rtfState
  styleTagOpened :: int
  bodyStarted :: bool
  bodyStopped :: bool

definition WriteString :: "rtfHtmlEncapsulatedInterpreter \<Rightarrow> byte list \<Rightarrow> rtfHtmlEncapsulatedInterpreter" where
  "WriteString p s = p\<lparr>content := content p @ s\<rparr>"

definition updateState :: "rtfHtmlEncapsulatedInterpreter \<Rightarrow> string \<Rightarrow> string \<Rightarrow> rtfHtmlEncapsulatedInterpreter" where
  "updateState p word val =
     (let stateValueType = snd (DetectWordState word);
          stateValue = (if stateValueType = ''flag'' then (if val = ''0'' then ''0'' else ''1'')
                        else if stateValueType = ''value'' then val
                        else '''')
      in p\<lparr>groupCurrentState :=
             (groupCurrentState p)\<lparr>states := (states (groupCurrentState p))(word \<mapsto> stateValue)\<rparr>\<rparr>)"

text \<open>The test that opens \<^verbatim>\<open>parseText\<close>, \<^verbatim>\<open>parseControlSymbol\<close> and the second half of \<^verbatim>\<open>parseControlWord\<close>.\<close>

definition htmlrtfOn :: "rtfHtmlEncapsulatedInterpreter \<Rightarrow> bool" where
  "htmlrtfOn p =
     (stateExists (groupCurrentState p) ''htmlrtf''
      \<and> stateValue (groupCurrentState p) ''htmlrtf'' = ''1'')"

definition parseText :: "(string \<Rightarrow> byte list \<Rightarrow> byte list) \<Rightarrow> rtfHtmlEncapsulatedInterpreter \<Rightarrow> byte list
    \<Rightarrow> rtfHtmlEncapsulatedInterpreter" where
  "parseText dec p text_content =
     (if htmlrtfOn p then p
      else WriteString p (ConvertToUtf8 dec text_content (rtfEncoding p)))"

definition parseControlWord :: "rtfHtmlEncapsulatedInterpreter \<Rightarrow> string \<Rightarrow> string
    \<Rightarrow> rtfHtmlEncapsulatedInterpreter" where
  "parseControlWord p word parameter =
     (if word = ''htmlrtf'' then updateState p word parameter
      else if insideHtmlTagGroup p > 0 then
        (if word = ''u'' then WriteString (WriteString (WriteString p ''&#'') parameter) '';''
         else if word = ''lquote'' then WriteString p ''&lsquo;''
         else if word = ''rquote'' then WriteString p ''&rsquo;''
         else if word = ''ldblquote'' then WriteString p ''&ldquo;''
         else if word = ''rdblquote'' then WriteString p ''&rdquo;''
         else if word = ''bullet'' then WriteString p ''&bull;''
         else if word = ''endash'' then WriteString p ''&ndash;''
         else if word = ''emdash'' then WriteString p ''&mdash;''
         else p)
      else if word \<noteq> ''f'' \<and> htmlrtfOn p then p
      else if word = ''line'' then p
      else if word = ''par'' then WriteString p [CHR 0x0D, CHR 0x0A]
      else if word = ''tab'' then WriteString p ''&nbsp;&nbsp;&nbsp;&nbsp;&nbsp;''
      else if word = ''deff'' then p\<lparr>defaultFont := GetIntParameter parameter\<rparr>
      else if word \<in> set [''ansi'', ''mac'', ''pc'', ''pca'']
        then p\<lparr>rtfEncoding := GetEncodingFromCodepage word\<rparr>
      else if word = ''ansicpg'' then
        (if GetIntParameter parameter > 0
         then p\<lparr>rtfEncoding := GetEncodingFromCodepage parameter\<rparr> else p)
      else if word \<in> set [''f'', ''fs''] then updateState p word parameter
      else p)"

text \<open>
  \<^verbatim>\<open>strconv.ParseInt(s, 16, 16)\<close>: an optional sign, then at least one hexadecimal digit
  and nothing else; the value must fit a signed 16-bit integer.
\<close>

definition hexDigitValue :: "char \<Rightarrow> int option" where
  "hexDigitValue c =
     (let n = (of_char c :: int) in
      if 48 \<le> n \<and> n \<le> 57 then Some (n - 48)
      else if 97 \<le> n \<and> n \<le> 102 then Some (n - 97 + 10)
      else if 65 \<le> n \<and> n \<le> 70 then Some (n - 65 + 10)
      else None)"

definition hexValue :: "string \<Rightarrow> int" where
  "hexValue ds = foldl (\<lambda>n c. 16 * n + (case hexDigitValue c of Some d \<Rightarrow> d | None \<Rightarrow> 0)) 0 ds"

definition ParseInt_16_16 :: "string \<Rightarrow> int option" where
  "ParseInt_16_16 s =
     (let neg = (s \<noteq> [] \<and> hd s = CHR ''-'');
          ds = (if s \<noteq> [] \<and> (hd s = CHR ''-'' \<or> hd s = CHR ''+'') then tl s else s)
      in if ds = [] \<or> \<not> list_all (\<lambda>c. hexDigitValue c \<noteq> None) ds then None
         else let n = hexValue ds
              in if neg then (if n \<le> 2 ^ 15 then Some (- n) else None)
                 else (if n < 2 ^ 15 then Some n else None))"

text \<open>\<^verbatim>\<open>bytes.TrimRight(b, cutset)\<close> for a one-character cutset.\<close>

definition TrimRight :: "byte list \<Rightarrow> char \<Rightarrow> byte list" where
  "TrimRight b c = rev (dropWhile (\<lambda>x. x = c) (rev b))"

text \<open>\<^verbatim>\<open>binary.LittleEndian.PutUint16(b, uint16(v))\<close> into a fresh two-byte slice.\<close>

definition PutUint16 :: "int \<Rightarrow> byte list" where
  "PutUint16 v = [char_of (v mod 65536), char_of ((v mod 65536) div 256)]"

definition parseControlSymbol :: "(string \<Rightarrow> byte list \<Rightarrow> byte list) \<Rightarrow> rtfHtmlEncapsulatedInterpreter
    \<Rightarrow> string \<Rightarrow> string \<Rightarrow> rtfHtmlEncapsulatedInterpreter" where
  "parseControlSymbol dec p symbol parameter =
     (if htmlrtfOn p then p
      else
        let p1 = (if symbol = [CHR 0x27] then
                    (case ParseInt_16_16 parameter of
                       Some v \<Rightarrow>
                         WriteString p
                           (ConvertToUtf8 dec (TrimRight (PutUint16 v) (CHR 0x00)) (rtfEncoding p))
                     | None \<Rightarrow> p)
                  else p)
        in if insideHtmlTagGroup p1 > 0 then
             (if symbol = ''~'' then WriteString p1 ''&nbsp;''
              else if symbol = ''_'' then WriteString p1 ''&shy;''
              else p1)
           else p1)"

subsection \<open>Font and colour tables\<close>

definition emptyFontTableItem :: rtfFontTableItem where
  "emptyFontTableItem =
     \<lparr>charsetIndex = 0, familyCode = '''', familyName = '''', familyAlternativeName = ''''\<rparr>"

text \<open>One child of a \<^verbatim>\<open>fontinfo\<close> group; the state of the loop is the font table and the local \<^verbatim>\<open>fontIdx\<close>.\<close>

fun fontInfoChild :: "(int \<rightharpoonup> rtfFontTableItem) \<times> int \<Rightarrow> rtfElement \<Rightarrow> (int \<rightharpoonup> rtfFontTableItem) \<times> int" where
  "fontInfoChild (ft, fontIdx) (RtfControlWord word parameter) =
     (if word = ''f'' then
        (ft(GetIntParameter parameter \<mapsto> emptyFontTableItem), GetIntParameter parameter)
      else if word \<in> set [''fnil'', ''froman'', ''fswiss'', ''fmodern'', ''fscript'', ''fdecor'',
                           ''ftech'', ''fbidi''] then
        (case ft fontIdx of
           Some ftItem \<Rightarrow> (ft(fontIdx \<mapsto> ftItem\<lparr>familyCode := word\<rparr>), fontIdx)
         | None \<Rightarrow> (ft, fontIdx))
      else if word = ''fcharset'' then
        (case ft fontIdx of
           Some ftItem \<Rightarrow> (ft(fontIdx \<mapsto> ftItem\<lparr>charsetIndex := GetIntParameter parameter\<rparr>), fontIdx)
         | None \<Rightarrow> (ft, fontIdx))
      else (ft, fontIdx))"
| "fontInfoChild (ft, fontIdx) (RtfText text_content) =
     (case ft fontIdx of
        Some ftItem \<Rightarrow> (ft(fontIdx \<mapsto> ftItem\<lparr>familyName := TrimRight text_content (CHR '';'')\<rparr>), fontIdx)
      | None \<Rightarrow> (ft, fontIdx))"
| "fontInfoChild (ft, fontIdx) (RtfGroup children) =
     (if IsFontAlternative children \<and> length children \<ge> 3 then
        (case children ! 2 of
           RtfText text_content \<Rightarrow>
             (case ft fontIdx of
                Some ftItem \<Rightarrow>
                  (ft(fontIdx \<mapsto> ftItem\<lparr>familyAlternativeName := text_content\<rparr>), fontIdx)
              | None \<Rightarrow> (ft, fontIdx))
         | _ \<Rightarrow> (ft, fontIdx))
      else (ft, fontIdx))"
| "fontInfoChild (ft, fontIdx) (RtfControlSymbol symbol parameter) = (ft, fontIdx)"

definition parseFontInfoGroup :: "rtfHtmlEncapsulatedInterpreter \<Rightarrow> rtfElement list \<Rightarrow> rtfHtmlEncapsulatedInterpreter" where
  "parseFontInfoGroup p children = p\<lparr>fontTable := fst (foldl fontInfoChild (fontTable p, 0) children)\<rparr>"

fun fontTableChild :: "rtfHtmlEncapsulatedInterpreter \<Rightarrow> rtfElement \<Rightarrow> rtfHtmlEncapsulatedInterpreter" where
  "fontTableChild p (RtfGroup children) = (if IsFontInfo children then parseFontInfoGroup p children else p)"
| "fontTableChild p child = p"

definition parseFontTableGroup :: "rtfHtmlEncapsulatedInterpreter \<Rightarrow> rtfElement list \<Rightarrow> rtfHtmlEncapsulatedInterpreter" where
  "parseFontTableGroup p children = foldl fontTableChild (p\<lparr>fontTable := Map.empty\<rparr>) children"

fun colorTableChild :: "rtfColor list \<times> rtfColor \<Rightarrow> rtfElement \<Rightarrow> rtfColor list \<times> rtfColor" where
  "colorTableChild (ct, RtfColor r g b) (RtfControlWord word parameter) =
     (if word = ''red'' then (ct, RtfColor (GetIntParameter parameter) g b)
      else if word = ''green'' then (ct, RtfColor r (GetIntParameter parameter) b)
      else if word = ''blue'' then (ct, RtfColor r g (GetIntParameter parameter))
      else (ct, RtfColor r g b))"
| "colorTableChild (ct, color) (RtfText text_content) = (ct @ [color], RtfColor 0 0 0)"
| "colorTableChild (ct, color) child = (ct, color)"

definition parseColorTableGroup :: "rtfHtmlEncapsulatedInterpreter \<Rightarrow> rtfElement list \<Rightarrow> rtfHtmlEncapsulatedInterpreter" where
  "parseColorTableGroup p children =
     (if \<not> IsColorTable children then p
      else p\<lparr>colorTable := fst (foldl colorTableChild (colorTable p, RtfColor 0 0 0) children)\<rparr>)"

subsection \<open>Groups\<close>

text \<open>
  \<^verbatim>\<open>parseGroup\<close> in four pieces.  \<open>groupHeader\<close> is the test for an \<^verbatim>\<open>htmltag\<close>
  destination at the top of the function: it yields \<^verbatim>\<open>isHtmlTagDestinationGroup\<close>,
  \<^verbatim>\<open>isStartBodyTag\<close> and the interpreter with \<^verbatim>\<open>bodyStopped\<close> and
  \<^verbatim>\<open>insideHtmlTagGroup\<close> updated.  \<open>enterGroup\<close> is the code before the loop over the
  children and \<open>leaveGroup\<close> the code after it; the subscript
  \<^verbatim>\<open>p.groupsInitialStates[len(p.groupsInitialStates)-1]\<close> panics on an empty stack
  (\<open>None\<close>).  \<open>leaveHtmlTag\<close> is the last \<^verbatim>\<open>if\<close> of the function.
\<close>

definition groupHeader :: "rtfHtmlEncapsulatedInterpreter \<Rightarrow> rtfElement list
    \<Rightarrow> bool \<times> bool \<times> rtfHtmlEncapsulatedInterpreter" where
  "groupHeader p children =
     (let (isHtmlTagDestinationGroup, isStartBodyTag, p1) =
            (if IsDestination children \<and> length children \<ge> 2 then
               (case children ! 1 of
                  RtfControlWord word parameter \<Rightarrow>
                    if word = ''htmltag'' then
                      (True, \<not> bodyStarted p \<and> GetIntParameter parameter = 50,
                       if GetIntParameter parameter = 58 then p\<lparr>bodyStopped := True\<rparr> else p)
                    else (False, False, p)
                | _ \<Rightarrow> (False, False, p))
             else (False, False, p))
      in (isHtmlTagDestinationGroup, isStartBodyTag,
          if isHtmlTagDestinationGroup
          then p1\<lparr>insideHtmlTagGroup := insideHtmlTagGroup p1 + 1\<rparr> else p1))"

definition enterGroup :: "rtfHtmlEncapsulatedInterpreter \<Rightarrow> rtfHtmlEncapsulatedInterpreter" where
  "enterGroup p =
     (let p1 = (if length (groupsInitialStates p) = 0
                then p\<lparr>groupCurrentState := NewRtfState\<rparr> else p)
      in p1\<lparr>groupsInitialStates := groupsInitialStates p1 @ [copy (groupCurrentState p1)]\<rparr>)"

definition leaveGroup :: "bool \<Rightarrow> rtfHtmlEncapsulatedInterpreter \<Rightarrow> rtfHtmlEncapsulatedInterpreter option" where
  "leaveGroup isStartBodyTag p =
     (if groupsInitialStates p = [] then None
      else
        let p1 = p\<lparr>groupCurrentState := last (groupsInitialStates p)\<rparr>;
            p2 = p1\<lparr>groupsInitialStates := butlast (groupsInitialStates p1)\<rparr>
        in Some (if isStartBodyTag then p2\<lparr>bodyStarted := True\<rparr> else p2))"

definition leaveHtmlTag :: "bool \<Rightarrow> rtfHtmlEncapsulatedInterpreter \<Rightarrow> rtfHtmlEncapsulatedInterpreter" where
  "leaveHtmlTag isHtmlTagDestinationGroup p =
     (if isHtmlTagDestinationGroup then
        (let p1 = p\<lparr>insideHtmlTagGroup := insideHtmlTagGroup p - 1\<rparr>
         in if insideHtmlTagGroup p1 < 0 then p1\<lparr>insideHtmlTagGroup := 0\<rparr> else p1)
      else p)"

definition isIgnoredGroup :: "rtfElement list \<Rightarrow> bool" where
  "isIgnoredGroup children =
     (IsStylesheet children \<or> IsTrackChanges children \<or> IsInfo children
      \<or> IsListtables children \<or> IsFilesTable children)"

text \<open>
  \<^verbatim>\<open>parseElement\<close>, \<^verbatim>\<open>parseGroup\<close> and the loop \<^verbatim>\<open>for _, child := range children\<close>
  of \<^verbatim>\<open>parseGroup\<close> (\<open>parseChildren\<close>).  \<open>None\<close> is the panic of \<open>leaveGroup\<close>.
\<close>

fun parseElement ::
    "(string \<Rightarrow> byte list \<Rightarrow> byte list) \<Rightarrow> rtfHtmlEncapsulatedInterpreter \<Rightarrow> rtfElement
     \<Rightarrow> rtfHtmlEncapsulatedInterpreter option"
  and parseGroup ::
    "(string \<Rightarrow> byte list \<Rightarrow> byte list) \<Rightarrow> rtfHtmlEncapsulatedInterpreter \<Rightarrow> rtfElement list
     \<Rightarrow> rtfHtmlEncapsulatedInterpreter option"
  and parseChildren ::
    "(string \<Rightarrow> byte list \<Rightarrow> byte list) \<Rightarrow> rtfHtmlEncapsulatedInterpreter \<Rightarrow> rtfElement list
     \<Rightarrow> rtfHtmlEncapsulatedInterpreter option"
where
  "parseElement dec p (RtfGroup children) = parseGroup dec p children"
| "parseElement dec p (RtfControlSymbol symbol parameter) =
     Some (parseControlSymbol dec p symbol parameter)"
| "parseElement dec p (RtfControlWord word parameter) = Some (parseControlWord p word parameter)"
| "parseElement dec p (RtfText text_content) = Some (parseText dec p text_content)"
| "parseGroup dec p children =
     (case groupHeader p children of
        (isHtmlTagDestinationGroup, isStartBodyTag, p1) \<Rightarrow>
          if IsFontTable children
            then Some (leaveHtmlTag isHtmlTagDestinationGroup (parseFontTableGroup p1 children))
          else if IsColorTable children
            then Some (leaveHtmlTag isHtmlTagDestinationGroup (parseColorTableGroup p1 children))
          else if isIgnoredGroup children
            then Some (leaveHtmlTag isHtmlTagDestinationGroup p1)
          else
            (case parseChildren dec (enterGroup p1) children of
               None \<Rightarrow> None
             | Some p2 \<Rightarrow>
                 (case leaveGroup isStartBodyTag p2 of
                    None \<Rightarrow> None
                  | Some p3 \<Rightarrow> Some (leaveHtmlTag isHtmlTagDestinationGroup p3))))"
| "parseChildren dec p [] = Some p"
| "parseChildren dec p (child # rest) =
     (case parseElement dec p child of
        None \<Rightarrow> None
      | Some p1 \<Rightarrow> parseChildren dec p1 rest)"

text \<open>\<^verbatim>\<open>Parse\<close>: the validity test, then the walk of the root; the result is the content written.\<close>

datatype 'a parse_result = Parsed 'a | InvalidRtf | ParsePanic

definition emptyInterpreter :: "string \<Rightarrow> rtfHtmlEncapsulatedInterpreter" where
  "emptyInterpreter tag =
     \<lparr>content = [], insideHtmlTagGroup = 0, rtfEncoding = '''', defaultFont = 0,
      fontTable = Map.empty, colorTable = [], styleTag = tag, groupsInitialStates = [],
      groupPreviousState = NewRtfState, groupCurrentState = NewRtfState, styleTagOpened = 0,
      bodyStarted = False, bodyStopped = False\<rparr>"

definition Parse :: "(string \<Rightarrow> byte list \<Rightarrow> byte list) \<Rightarrow> rtfHtmlEncapsulatedInterpreter
    \<Rightarrow> rtfElement list \<Rightarrow> byte list parse_result" where
  "Parse dec p root =
     (let p1 = p\<lparr>content := [], insideHtmlTagGroup := 0\<rparr>
      in if \<not> IsValid root then InvalidRtf
         else (case parseElement dec p1 (RtfGroup root) of
                 None \<Rightarrow> ParsePanic
               | Some p2 \<Rightarrow> Parsed (content p2)))"

subsection \<open>Auxiliary definitions for the statements about the interpreter\<close>

text \<open>
  A token that cannot end \<^verbatim>\<open>htmlrtf\<close> suppression: anything but a group and
  \<^verbatim>\<open>\htmlrtf0\<close>.
\<close>

fun keepsSuppression :: "rtfElement \<Rightarrow> bool" where
  "keepsSuppression (RtfGroup children) = False"
| "keepsSuppression (RtfControlWord word parameter) = (word = ''htmlrtf'' \<longrightarrow> parameter \<noteq> ''0'')"
| "keepsSuppression (RtfControlSymbol symbol parameter) = True"
| "keepsSuppression (RtfText text_content) = True"

text \<open>
  Concrete inputs: a decoder that returns its bytes, and two interpreters in the middle of
  a walk (one frame on the stack), the first with font 2 selected and the second with
  \<^verbatim>\<open>htmlrtf\<close> on.
\<close>

definition identityDecoder :: "string \<Rightarrow> byte list \<Rightarrow> byte list" where
  "identityDecoder name b = b"

definition insideRootWithFont2 :: rtfHtmlEncapsulatedInterpreter where
  "insideRootWithFont2 =
     (emptyInterpreter ''span'')\<lparr>groupsInitialStates := [NewRtfState],
        groupCurrentState := \<lparr>states = [''f'' \<mapsto> ''2'']\<rparr>\<rparr>"

definition insideRootSuppressed :: rtfHtmlEncapsulatedInterpreter where
  "insideRootSuppressed =
     (emptyInterpreter ''span'')\<lparr>groupsInitialStates := [NewRtfState],
        groupCurrentState := \<lparr>states = [''htmlrtf'' \<mapsto> ''1'']\<rparr>\<rparr>"

section \<open>The tokenizer (structure.go)\<close>

subsection \<open>The byte source\<close>

text \<open>
  The tokenizer reads through a \<^verbatim>\<open>bufio.Reader\<close> of the Go library.  The model keeps
  what the tokenizer can observe of it: the bytes not yet read, and the reader's
  \<^verbatim>\<open>lastByte\<close>, the byte that \<^verbatim>\<open>UnreadByte\<close> would give back.  \<^verbatim>\<open>ReadByte\<close> and
  \<^verbatim>\<open>ReadRune\<close> record the last byte they consumed and leave \<^verbatim>\<open>lastByte\<close> as it was
  when they fail at the end of the input; \<^verbatim>\<open>Peek\<close> and \<^verbatim>\<open>UnreadByte\<close> clear it.
  \<^verbatim>\<open>Peek(n)\<close> yields the next \<open>n\<close> bytes, or fewer together with an error when the
  input ends before.
\<close>

record bufio_Reader =
  unread :: "byte list"
  lastByte :: "byte option"

definition ReadByte :: "bufio_Reader \<Rightarrow> byte option \<times> bufio_Reader" where
  "ReadByte rd =
     (case unread rd of
        [] \<Rightarrow> (None, rd)
      | c # rest \<Rightarrow> (Some c, rd\<lparr>unread := rest, lastByte := Some c\<rparr>))"

definition UnreadByte :: "bufio_Reader \<Rightarrow> bufio_Reader" where
  "UnreadByte rd =
     (case lastByte rd of
        None \<Rightarrow> rd
      | Some c \<Rightarrow> rd\<lparr>unread := c # unread rd, lastByte := None\<rparr>)"

text \<open>The result of \<^verbatim>\<open>Peek(n)\<close> is the slice and whether the error is nil.\<close>

definition Peek :: "nat \<Rightarrow> bufio_Reader \<Rightarrow> (byte list \<times> bool) \<times> bufio_Reader" where
  "Peek n rd = ((take n (unread rd), n \<le> length (unread rd)), rd\<lparr>lastByte := None\<rparr>)"

text \<open>
  \<^verbatim>\<open>utf8.DecodeRune\<close>: the rune and its width in bytes; an invalid or incomplete
  encoding is the rune \<^verbatim>\<open>RuneError\<close> of width 1.
\<close>

definition RuneError :: nat where
  "RuneError = 0xFFFD"

definition DecodeRune :: "byte list \<Rightarrow> nat \<times> nat" where
  "DecodeRune p =
     (case p of
        [] \<Rightarrow> (RuneError, 0)
      | c0 # rest \<Rightarrow>
          let p0 = (of_char c0 :: nat) in
          if p0 < 0x80 then (p0, 1)
          else if p0 < 0xC2 \<or> 0xF4 < p0 then (RuneError, 1)
          else
            let sz = (if p0 < 0xE0 then 2 else if p0 < 0xF0 then 3 else 4 :: nat);
                lo = (if p0 = 0xE0 then 0xA0 else if p0 = 0xF0 then 0x90 else 0x80 :: nat);
                hi = (if p0 = 0xED then 0x9F else if p0 = 0xF4 then 0x8F else 0xBF :: nat)
            in if length p < sz then (RuneError, 1)
               else
                 let b1 = (of_char (p ! 1) :: nat) in
                 if b1 < lo \<or> hi < b1 then (RuneError, 1)
                 else if sz \<le> 2 then ((p0 mod 32) * 64 + b1 mod 64, 2)
                 else
                   let b2 = (of_char (p ! 2) :: nat) in
                   if b2 < 0x80 \<or> 0xBF < b2 then (RuneError, 1)
                   else if sz \<le> 3 then ((p0 mod 16) * 4096 + (b1 mod 64) * 64 + b2 mod 64, 3)
                   else
                     let b3 = (of_char (p ! 3) :: nat) in
                     if b3 < 0x80 \<or> 0xBF < b3 then (RuneError, 1)
                     else ((p0 mod 8) * 262144 + (b1 mod 64) * 4096 + (b2 mod 64) * 64
                           + b3 mod 64, 4))"

text \<open>\<^verbatim>\<open>ReadRune\<close>: the rune, or \<open>None\<close> at the end of the input.\<close>

definition ReadRune :: "bufio_Reader \<Rightarrow> nat option \<times> bufio_Reader" where
  "ReadRune rd =
     (if unread rd = [] then (None, rd)
      else
        let (r, size) = DecodeRune (unread rd)
        in (Some r, rd\<lparr>unread := drop size (unread rd),
                       lastByte := Some (unread rd ! (size - 1))\<rparr>))"

text \<open>
  The UTF-8 encoding of a rune, as written by \<^verbatim>\<open>bytes.Buffer.WriteRune\<close> and by the
  conversion \<^verbatim>\<open>string(b)\<close> of a byte \<open>b\<close>.
\<close>

definition EncodeRune :: "nat \<Rightarrow> byte list" where
  "EncodeRune r =
     (if r < 0x80 then [char_of r]
      else if r < 0x800 then [char_of (0xC0 + r div 64), char_of (0x80 + r mod 64)]
      else if (0xD800 \<le> r \<and> r \<le> 0xDFFF) \<or> 0x10FFFF < r then [CHR 0xEF, CHR 0xBF, CHR 0xBD]
      else if r < 0x10000 then
        [char_of (0xE0 + r div 4096), char_of (0x80 + (r div 64) mod 64), char_of (0x80 + r mod 64)]
      else
        [char_of (0xF0 + r div 262144), char_of (0x80 + (r div 4096) mod 64),
         char_of (0x80 + (r div 64) mod 64), char_of (0x80 + r mod 64)])"

definition string_of_byte :: "byte \<Rightarrow> string" where
  "string_of_byte b = EncodeRune (of_char b)"

subsection \<open>utils.go: byte classes\<close>

text \<open>
  The three tests match the one-character string \<^verbatim>\<open>string(b)\<close> against a regular
  expression; a byte above \<open>0x7F\<close> becomes a two-byte string that matches none of them.
  \<^verbatim>\<open>ByteIsHexDigit\<close> uses the class \<^verbatim>\<open>[A-Za-z0-9]\<close>.
\<close>

definition isUpper :: "byte \<Rightarrow> bool" where
  "isUpper b = (65 \<le> (of_char b :: nat) \<and> (of_char b :: nat) \<le> 90)"

definition isLower :: "byte \<Rightarrow> bool" where
  "isLower b = (97 \<le> (of_char b :: nat) \<and> (of_char b :: nat) \<le> 122)"

definition ByteIsAsciiLetter :: "byte \<Rightarrow> bool" where
  "ByteIsAsciiLetter b = (isUpper b \<or> isLower b)"

definition ByteIsDigit :: "byte \<Rightarrow> bool" where
  "ByteIsDigit b = isDecimalDigit b"

definition ByteIsHexDigit :: "byte \<Rightarrow> bool" where
  "ByteIsHexDigit b = (isUpper b \<or> isLower b \<or> isDecimalDigit b)"

subsection \<open>The tokenizer state\<close>

text \<open>
  \<^verbatim>\<open>RtfStructure\<close>.  The tree under construction is kept as the stack of the groups
  that are open, innermost first, each with the children it has so far: \<^verbatim>\<open>currentGroup\<close>
  is the head of \<open>openGroups\<close>, its \<^verbatim>\<open>GetParent()\<close> is the next entry, and
  \<^verbatim>\<open>currentGroup == nil\<close> is the empty stack.  A group is the last child of its parent
  from the moment it is opened until it is closed, because every \<^verbatim>\<open>addChild\<close> in between
  goes to the group itself or below; so the model appends it to its parent when it is
  closed.  \<open>rootOpened\<close> is \<^verbatim>\<open>Root != nil\<close> and \<open>closedRoot\<close> holds the children of
  the root once it has been closed.  \<open>None\<close> as a result is a run-time panic (a nil
  \<^verbatim>\<open>currentGroup\<close> dereferenced, or the empty \<^verbatim>\<open>uc\<close> indexed).
\<close>

record RtfStructure =
  reader :: bufio_Reader
  rootOpened :: bool
  openGroups :: "rtfElement list list"
  closedRoot :: "rtfElement list"
  uc :: "int list"

definition addChild :: "RtfStructure \<Rightarrow> rtfElement \<Rightarrow> RtfStructure option" where
  "addChild rtfObj c =
     (case openGroups rtfObj of
        [] \<Rightarrow> None
      | children # parents \<Rightarrow> Some (rtfObj\<lparr>openGroups := (children @ [c]) # parents\<rparr>))"

definition startGroup :: "RtfStructure \<Rightarrow> RtfStructure option" where
  "startGroup rtfObj =
     (if \<not> rootOpened rtfObj then
        Some (rtfObj\<lparr>rootOpened := True, openGroups := [[]], uc := uc rtfObj @ [1]\<rparr>)
      else if openGroups rtfObj = [] \<or> uc rtfObj = [] then None
      else Some (rtfObj\<lparr>openGroups := [] # openGroups rtfObj, uc := uc rtfObj @ [last (uc rtfObj)]\<rparr>))"

definition endGroup :: "RtfStructure \<Rightarrow> RtfStructure option" where
  "endGroup rtfObj =
     (case openGroups rtfObj of
        [] \<Rightarrow> None
      | children # parents \<Rightarrow>
          let rtfObj1 =
                (case parents of
                   [] \<Rightarrow> rtfObj\<lparr>openGroups := [], closedRoot := children\<rparr>
                 | parent # rest \<Rightarrow> rtfObj\<lparr>openGroups := (parent @ [RtfGroup children]) # rest\<rparr>)
          in Some (if length (uc rtfObj1) > 0 then rtfObj1\<lparr>uc := butlast (uc rtfObj1)\<rparr>
                   else rtfObj1))"

text \<open>The tree as \<^verbatim>\<open>rtfObj.Root\<close> shows it: the children of the root, with the groups still open folded in.\<close>

fun foldOpen :: "rtfElement list \<Rightarrow> rtfElement list list \<Rightarrow> rtfElement list" where
  "foldOpen children [] = children"
| "foldOpen children (parent # rest) = foldOpen (parent @ [RtfGroup children]) rest"

definition Root :: "RtfStructure \<Rightarrow> rtfElement list option" where
  "Root rtfObj =
     (if \<not> rootOpened rtfObj then None
      else (case openGroups rtfObj of
              [] \<Rightarrow> Some (closedRoot rtfObj)
            | children # parents \<Rightarrow> Some (foldOpen children parents)))"

subsection \<open>Facts about the byte source needed for termination\<close>

lemma Peek_unread [simp]: "unread (snd (Peek n rd)) = unread rd"
  by (simp add: Peek_def)

lemma Peek_result: "Peek n rd = ((bp, ok), rd1) \<Longrightarrow>
    unread rd1 = unread rd \<and> bp = take n (unread rd) \<and> ok = (n \<le> length (unread rd))"
  by (auto simp: Peek_def)

lemma ReadByte_Some: "ReadByte rd = (Some b, rd1) \<Longrightarrow> unread rd = b # unread rd1"
  by (auto simp: ReadByte_def split: list.splits)

lemma ReadByte_None: "ReadByte rd = (None, rd1) \<Longrightarrow> rd1 = rd \<and> unread rd = []"
  by (auto simp: ReadByte_def split: list.splits)

lemma DecodeRune_width: "p \<noteq> [] \<Longrightarrow> 1 \<le> snd (DecodeRune p)"
  by (cases p) (simp_all add: DecodeRune_def Let_def)

lemma ReadRune_Some: "ReadRune rd = (Some r, rd1) \<Longrightarrow> length (unread rd1) < length (unread rd)"
proof -
  assume a: "ReadRune rd = (Some r, rd1)"
  then have ne: "unread rd \<noteq> []" by (auto simp: ReadRune_def split: if_splits)
  obtain r' size where d: "DecodeRune (unread rd) = (r', size)" by (cases "DecodeRune (unread rd)")
  with DecodeRune_width[OF ne] have "1 \<le> size" by simp
  moreover from a ne d have "unread rd1 = drop size (unread rd)"
    by (auto simp: ReadRune_def)
  ultimately show ?thesis using ne by (cases "unread rd") auto
qed

lemma ReadRune_None: "ReadRune rd = (None, rd1) \<Longrightarrow> rd1 = rd"
  by (auto simp: ReadRune_def Let_def split: if_splits prod.splits)

subsection \<open>\<^verbatim>\<open>parseText\<close>\<close>

text \<open>
  Every loop of the tokenizer is written as its body, a step that ends in \<^verbatim>\<open>break\<close>
  (\<open>Break\<close>) or goes round again (\<open>Continue\<close>), and the iteration of that step.

  The loop of \<^verbatim>\<open>parseText\<close>, on the reader and the text buffer.  Carriage returns and
  line feeds are dropped; a backslash followed by a brace or a backslash is copied with
  the byte it escapes; any other backslash and any brace end the run; anything else is
  read as one rune and written back as UTF-8.
\<close>

datatype 'a loop_step = Break 'a | Continue 'a

definition parseTextStep :: "bufio_Reader \<Rightarrow> byte list \<Rightarrow> (bufio_Reader \<times> byte list) loop_step" where
  "parseTextStep rd buffer =
     (case Peek 2 rd of
        ((bp, ok), rd1) \<Rightarrow>
          if \<not> ok \<and> length bp = 0 then Break (rd1, buffer)
          else if length bp \<ge> 1 \<and> (bp ! 0 = CHR 0x0D \<or> bp ! 0 = CHR 0x0A) then
            (case ReadByte rd1 of
               (None, rd2) \<Rightarrow> Break (rd2, buffer)
             | (Some b, rd2) \<Rightarrow> Continue (rd2, buffer))
          else if bp ! 0 = backslash then
            (if length bp = 2 \<and> bp ! 1 \<noteq> CHR ''}'' \<and> bp ! 1 \<noteq> CHR ''{'' \<and> bp ! 1 \<noteq> backslash
             then Break (rd1, buffer)
             else
               (case ReadByte rd1 of
                  (None, rd2) \<Rightarrow> Break (rd2, buffer)
                | (Some b, rd2) \<Rightarrow>
                    (case ReadByte rd2 of
                       (None, rd3) \<Rightarrow> Break (rd3, buffer @ [b])
                     | (Some b2, rd3) \<Rightarrow> Continue (rd3, buffer @ [b, b2]))))
          else if bp ! 0 = CHR ''{'' \<or> bp ! 0 = CHR ''}'' then Break (rd1, buffer)
          else
            (case ReadRune rd1 of
               (None, rd2) \<Rightarrow> Break (rd2, buffer)
             | (Some br, rd2) \<Rightarrow> Continue (rd2, buffer @ EncodeRune br)))"

lemma parseTextStep_Continue:
  "parseTextStep rd buffer = Continue (rd1, buffer1) \<Longrightarrow> length (unread rd1) < length (unread rd)"
  by (auto simp: parseTextStep_def Peek_def split: if_splits prod.splits option.splits
      dest!: ReadByte_Some ReadRune_Some)

lemma parseTextStep_Break:
  "parseTextStep rd buffer = Break (rd1, buffer1) \<Longrightarrow> length (unread rd1) \<le> length (unread rd)"
  by (auto simp: parseTextStep_def Peek_def split: if_splits prod.splits option.splits
      dest!: ReadByte_Some ReadByte_None ReadRune_None)

function parseTextLoop :: "bufio_Reader \<Rightarrow> byte list \<Rightarrow> bufio_Reader \<times> byte list" where
  "parseTextLoop rd buffer =
     (case parseTextStep rd buffer of
        Break result \<Rightarrow> result
      | Continue (rd1, buffer1) \<Rightarrow> parseTextLoop rd1 buffer1)"
  by pat_completeness auto
termination
  by (relation "measure (\<lambda>(rd, buffer). length (unread rd))")
    (auto dest: parseTextStep_Continue)

declare parseTextLoop.simps [simp del]

definition parseText_tok :: "RtfStructure \<Rightarrow> RtfStructure option" where
  "parseText_tok rtfObj =
     (case parseTextLoop (reader rtfObj) [] of
        (rd, buffer) \<Rightarrow>
          if length buffer > 0 then addChild (rtfObj\<lparr>reader := rd\<rparr>) (RtfText buffer)
          else Some (rtfObj\<lparr>reader := rd\<rparr>))"

subsection \<open>\<^verbatim>\<open>parseControlSymbol\<close>\<close>

text \<open>
  The digits after \<^verbatim>\<open>\'\<close>: at most two bytes, each taken only if \<^verbatim>\<open>ByteIsHexDigit\<close>
  accepts it.  The result is the reader and the parameter.
\<close>

definition readHexParameter :: "bufio_Reader \<Rightarrow> bufio_Reader \<times> string" where
  "readHexParameter rd =
     (case Peek 1 rd of
        ((bp, ok), rd1) \<Rightarrow>
          if ok \<and> ByteIsHexDigit (bp ! 0) then
            (case Peek 1 (snd (ReadByte rd1)) of
               ((bp2, ok2), rd3) \<Rightarrow>
                 if ok2 \<and> ByteIsHexDigit (bp2 ! 0)
                 then (snd (ReadByte rd3), [bp ! 0, bp2 ! 0])
                 else (rd3, [bp ! 0]))
          else (rd1, []))"

definition parseControlSymbol_tok :: "RtfStructure \<Rightarrow> RtfStructure option" where
  "parseControlSymbol_tok rtfObj =
     (case ReadByte (reader rtfObj) of
        (None, rd) \<Rightarrow> Some (rtfObj\<lparr>reader := rd\<rparr>)
      | (Some b, rd) \<Rightarrow>
          if b = CHR 0x0D \<or> b = CHR 0x0A then
            (case Peek 1 rd of
               ((bp, ok), rd1) \<Rightarrow>
                 if \<not> ok then Some (rtfObj\<lparr>reader := rd1\<rparr>)
                 else
                   let rd2 = (if length bp = 1 \<and> (bp ! 0 = CHR 0x0D \<or> bp ! 0 = CHR 0x0A)
                              then snd (ReadByte rd1) else rd1)
                   in addChild (rtfObj\<lparr>reader := rd2\<rparr>) (RtfControlWord ''par'' ''''))
          else
            (case (if b = CHR 0x27 then readHexParameter rd else (rd, [])) of
               (rd3, parameter) \<Rightarrow>
                 addChild (rtfObj\<lparr>reader := rd3\<rparr>) (RtfControlSymbol (string_of_byte b) parameter)))"

subsection \<open>\<^verbatim>\<open>parseControlWord\<close>\<close>

text \<open>The two loops that collect the letters of the word and the digits of the parameter.\<close>

definition readLettersStep :: "bufio_Reader \<Rightarrow> byte list \<Rightarrow> (bufio_Reader \<times> byte list) loop_step" where
  "readLettersStep rd wordBuffer =
     (case Peek 1 rd of
        ((bp, ok), rd1) \<Rightarrow>
          if \<not> ok then Break (rd1, wordBuffer)
          else if ByteIsAsciiLetter (bp ! 0) then
            (case ReadByte rd1 of
               (None, rd2) \<Rightarrow> Break (rd2, wordBuffer)
             | (Some b, rd2) \<Rightarrow> Continue (rd2, wordBuffer @ [b]))
          else Break (rd1, wordBuffer))"

lemma readLettersStep_Continue:
  "readLettersStep rd wordBuffer = Continue (rd1, wordBuffer1) \<Longrightarrow>
   length (unread rd1) < length (unread rd)"
  by (auto simp: readLettersStep_def Peek_def split: if_splits prod.splits option.splits
      dest!: ReadByte_Some)

lemma readLettersStep_Break:
  "readLettersStep rd wordBuffer = Break (rd1, wordBuffer1) \<Longrightarrow>
   length (unread rd1) \<le> length (unread rd)"
  by (auto simp: readLettersStep_def Peek_def split: if_splits prod.splits option.splits
      dest!: ReadByte_None)

function readLetters :: "bufio_Reader \<Rightarrow> byte list \<Rightarrow> bufio_Reader \<times> byte list" where
  "readLetters rd wordBuffer =
     (case readLettersStep rd wordBuffer of
        Break result \<Rightarrow> result
      | Continue (rd1, wordBuffer1) \<Rightarrow> readLetters rd1 wordBuffer1)"
  by pat_completeness auto
termination
  by (relation "measure (\<lambda>(rd, wordBuffer). length (unread rd))")
    (auto dest: readLettersStep_Continue)

declare readLetters.simps [simp del]

definition readDigitsStep :: "bufio_Reader \<Rightarrow> byte list \<Rightarrow> (bufio_Reader \<times> byte list) loop_step" where
  "readDigitsStep rd parameterBuffer =
     (case Peek 1 rd of
        ((bp, ok), rd1) \<Rightarrow>
          if \<not> ok \<or> \<not> ByteIsDigit (bp ! 0) then Break (rd1, parameterBuffer)
          else
            (case ReadByte rd1 of
               (None, rd2) \<Rightarrow> Break (rd2, parameterBuffer)
             | (Some b, rd2) \<Rightarrow> Continue (rd2, parameterBuffer @ [b])))"

lemma readDigitsStep_Continue:
  "readDigitsStep rd parameterBuffer = Continue (rd1, parameterBuffer1) \<Longrightarrow>
   length (unread rd1) < length (unread rd)"
  by (auto simp: readDigitsStep_def Peek_def split: if_splits prod.splits option.splits
      dest!: ReadByte_Some)

lemma readDigitsStep_Break:
  "readDigitsStep rd parameterBuffer = Break (rd1, parameterBuffer1) \<Longrightarrow>
   length (unread rd1) \<le> length (unread rd)"
  by (auto simp: readDigitsStep_def Peek_def split: if_splits prod.splits option.splits
      dest!: ReadByte_None)

function readDigits :: "bufio_Reader \<Rightarrow> byte list \<Rightarrow> bufio_Reader \<times> byte list" where
  "readDigits rd parameterBuffer =
     (case readDigitsStep rd parameterBuffer of
        Break result \<Rightarrow> result
      | Continue (rd1, parameterBuffer1) \<Rightarrow> readDigits rd1 parameterBuffer1)"
  by pat_completeness auto
termination
  by (relation "measure (\<lambda>(rd, parameterBuffer). length (unread rd))")
    (auto dest: readDigitsStep_Continue)

declare readDigits.simps [simp del]

text \<open>The optional minus sign, and the optional space that ends the control word.\<close>

definition readSign :: "bufio_Reader \<Rightarrow> bufio_Reader \<times> byte list" where
  "readSign rd =
     (case Peek 1 rd of
        ((bp, ok), rd1) \<Rightarrow>
          if ok \<and> bp ! 0 = CHR ''-'' then
            (case ReadByte rd1 of
               (None, rd2) \<Rightarrow> (rd2, [])
             | (Some b, rd2) \<Rightarrow> (rd2, ''-''))
          else (rd1, []))"

definition readSpace :: "bufio_Reader \<Rightarrow> bufio_Reader" where
  "readSpace rd =
     (case Peek 1 rd of
        ((bp, ok), rd1) \<Rightarrow> if ok \<and> bp ! 0 = CHR '' '' then snd (ReadByte rd1) else rd1)"

text \<open>
  The three \<^verbatim>\<open>ReadByte\<close> calls that follow a backslash and an apostrophe in the skip
  loop; the flag says whether all three succeeded.
\<close>

definition readThree :: "bufio_Reader \<Rightarrow> bool \<times> bufio_Reader" where
  "readThree rd =
     (case ReadByte rd of
        (None, rd1) \<Rightarrow> (False, rd1)
      | (Some b1, rd1) \<Rightarrow>
          (case ReadByte rd1 of
             (None, rd2) \<Rightarrow> (False, rd2)
           | (Some b2, rd2) \<Rightarrow>
               (case ReadByte rd2 of
                  (None, rd3) \<Rightarrow> (False, rd3)
                | (Some b3, rd3) \<Rightarrow> (True, rd3))))"

text \<open>
  The loop after \<^verbatim>\<open>\u\<close> that skips the replacement characters.  The counter is
  decremented and tested at the end of the body, after one unit has been read.  It is a
  Go \<^verbatim>\<open>int\<close> of 64 bits: \<^verbatim>\<open>uc--\<close> at the least value wraps to the greatest.
\<close>

definition int64_decrement :: "int \<Rightarrow> int" where
  "int64_decrement n = (if n = - (2 ^ 63) then 2 ^ 63 - 1 else n - 1)"

lemma readThree_le: "readThree rd = (ok, rd1) \<Longrightarrow> length (unread rd1) \<le> length (unread rd)"
  by (auto simp: readThree_def ReadByte_def split: list.splits)

definition skipFallbackStep :: "bufio_Reader \<Rightarrow> int \<Rightarrow> (bufio_Reader \<times> int) loop_step" where
  "skipFallbackStep rd uc_count =
     (case Peek 1 rd of
        ((bp, ok), rd1) \<Rightarrow>
          if \<not> ok then Break (rd1, uc_count)
          else if bp ! 0 = CHR ''{'' \<or> bp ! 0 = CHR ''}'' then Break (rd1, uc_count)
          else
            (case ReadRune rd1 of
               (None, rd2) \<Rightarrow> Break (rd2, uc_count)
             | (Some br, rd2) \<Rightarrow>
                 (case Peek 1 rd2 of
                    ((bp2, ok2), rd3) \<Rightarrow>
                      if \<not> ok2 then Break (rd3, uc_count)
                      else
                        (case (if br = 0x5C \<and> bp2 ! 0 = CHR 0x27 then readThree rd3
                               else (True, rd3)) of
                           (ok3, rd4) \<Rightarrow>
                             if \<not> ok3 then Break (rd4, uc_count)
                             else if int64_decrement uc_count \<le> 0
                               then Break (rd4, int64_decrement uc_count)
                             else Continue (rd4, int64_decrement uc_count)))))"

lemma skipFallbackStep_Continue:
  "skipFallbackStep rd uc_count = Continue (rd1, uc_count1) \<Longrightarrow>
   length (unread rd1) < length (unread rd)"
  by (auto simp: skipFallbackStep_def Peek_def split: if_splits prod.splits option.splits
      dest!: ReadRune_Some readThree_le)

lemma skipFallbackStep_Break:
  "skipFallbackStep rd uc_count = Break (rd1, uc_count1) \<Longrightarrow>
   length (unread rd1) \<le> length (unread rd)"
  by (auto simp: skipFallbackStep_def Peek_def split: if_splits prod.splits option.splits
      dest!: ReadRune_Some ReadRune_None readThree_le)

function skipFallback :: "bufio_Reader \<Rightarrow> int \<Rightarrow> bufio_Reader" where
  "skipFallback rd uc_count =
     (case skipFallbackStep rd uc_count of
        Break (rd1, uc_count1) \<Rightarrow> rd1
      | Continue (rd1, uc_count1) \<Rightarrow> skipFallback rd1 uc_count1)"
  by pat_completeness auto
termination
  by (relation "measure (\<lambda>(rd, uc_count). length (unread rd))")
    (auto dest: skipFallbackStep_Continue)

declare skipFallback.simps [simp del]

definition parseControlWord_tok :: "RtfStructure \<Rightarrow> RtfStructure option" where
  "parseControlWord_tok rtfObj =
     (case readLetters (reader rtfObj) [] of
        (rd1, controlWord) \<Rightarrow>
          (case readSign rd1 of
             (rd2, sign) \<Rightarrow>
               (case readDigits rd2 sign of
                  (rd3, controlWordParameter) \<Rightarrow>
                    let rd4 = readSpace rd3;
                        parameter = (if length controlWordParameter > 0
                                     then (case Atoi controlWordParameter of Some n \<Rightarrow> n | None \<Rightarrow> 1)
                                     else 1);
                        rtfObj1 = rtfObj\<lparr>reader := rd4\<rparr>
                    in (case (if controlWord = ''uc'' then
                                (if uc rtfObj1 = [] then None
                                 else Some (rtfObj1\<lparr>uc := butlast (uc rtfObj1) @ [parameter]\<rparr>))
                              else Some rtfObj1) of
                          None \<Rightarrow> None
                        | Some rtfObj2 \<Rightarrow>
                            (case (if controlWord = ''u'' then
                                     (if uc rtfObj2 = [] then None
                                      else Some (rtfObj2\<lparr>reader :=
                                             skipFallback (reader rtfObj2) (last (uc rtfObj2))\<rparr>))
                                   else Some rtfObj2) of
                               None \<Rightarrow> None
                             | Some rtfObj3 \<Rightarrow>
                                 addChild rtfObj3 (RtfControlWord controlWord controlWordParameter))))))"

subsection \<open>\<^verbatim>\<open>parseControl\<close> and \<^verbatim>\<open>Parse\<close>\<close>

definition parseControl :: "RtfStructure \<Rightarrow> RtfStructure option" where
  "parseControl rtfObj =
     (case Peek 1 (reader rtfObj) of
        ((bp, ok), rd1) \<Rightarrow>
          if \<not> ok then Some (rtfObj\<lparr>reader := rd1\<rparr>)
          else if \<not> ByteIsAsciiLetter (bp ! 0) then parseControlSymbol_tok (rtfObj\<lparr>reader := rd1\<rparr>)
          else parseControlWord_tok (rtfObj\<lparr>reader := rd1\<rparr>))"

text \<open>
  One iteration of the loop of \<^verbatim>\<open>Parse\<close>.  The flag of the result says whether the loop
  goes on: it stops when the root has been closed and when \<^verbatim>\<open>ReadByte\<close> failed.  At the
  end of the input \<open>b\<close> is the zero byte, which takes the \<^verbatim>\<open>default\<close> branch.
\<close>

definition parseStep :: "RtfStructure \<Rightarrow> (bool \<times> RtfStructure) option" where
  "parseStep rtfObj =
     (case ReadByte (reader rtfObj) of
        (bo, rd) \<Rightarrow>
          let rtfObj1 = rtfObj\<lparr>reader := rd\<rparr> in
          if openGroups rtfObj1 = [] \<and> rootOpened rtfObj1 then Some (False, rtfObj1)
          else
            (case (if bo = Some (CHR ''{'') then startGroup rtfObj1
                   else if bo = Some (CHR ''}'') then endGroup rtfObj1
                   else if bo = Some backslash then parseControl rtfObj1
                   else parseText_tok (rtfObj1\<lparr>reader := UnreadByte rd\<rparr>)) of
               None \<Rightarrow> None
             | Some rtfObj2 \<Rightarrow> Some (bo \<noteq> None, rtfObj2)))"

subsection \<open>The input only shrinks: termination of \<^verbatim>\<open>Parse\<close>\<close>

lemma ReadByte_le: "length (unread (snd (ReadByte rd))) \<le> length (unread rd)"
  by (simp add: ReadByte_def split: list.splits)

lemma parseTextLoop_le:
  "parseTextLoop rd buffer = (rd', buffer') \<Longrightarrow> length (unread rd') \<le> length (unread rd)"
proof (induction rd buffer rule: parseTextLoop.induct)
  case (1 rd buffer)
  show ?case
  proof (cases "parseTextStep rd buffer")
    case (Break result)
    with "1.prems" have "parseTextStep rd buffer = Break (rd', buffer')"
      by (simp add: parseTextLoop.simps[of rd buffer])
    then show ?thesis by (rule parseTextStep_Break)
  next
    case (Continue x)
    obtain rd1 buffer1 where x: "x = (rd1, buffer1)" by (cases x)
    with Continue "1.prems" have "parseTextLoop rd1 buffer1 = (rd', buffer')"
      by (simp add: parseTextLoop.simps[of rd buffer])
    from "1.IH"[OF Continue x[symmetric] this] parseTextStep_Continue[of rd buffer rd1 buffer1] Continue x
    show ?thesis by simp
  qed
qed

lemma readLetters_le:
  "readLetters rd w = (rd', w') \<Longrightarrow> length (unread rd') \<le> length (unread rd)"
proof (induction rd w rule: readLetters.induct)
  case (1 rd w)
  show ?case
  proof (cases "readLettersStep rd w")
    case (Break result)
    with "1.prems" have "readLettersStep rd w = Break (rd', w')"
      by (simp add: readLetters.simps[of rd w])
    then show ?thesis by (rule readLettersStep_Break)
  next
    case (Continue x)
    obtain rd1 w1 where x: "x = (rd1, w1)" by (cases x)
    with Continue "1.prems" have "readLetters rd1 w1 = (rd', w')"
      by (simp add: readLetters.simps[of rd w])
    from "1.IH"[OF Continue x[symmetric] this] readLettersStep_Continue[of rd w rd1 w1] Continue x
    show ?thesis by simp
  qed
qed

lemma readDigits_le:
  "readDigits rd w = (rd', w') \<Longrightarrow> length (unread rd') \<le> length (unread rd)"
proof (induction rd w rule: readDigits.induct)
  case (1 rd w)
  show ?case
  proof (cases "readDigitsStep rd w")
    case (Break result)
    with "1.prems" have "readDigitsStep rd w = Break (rd', w')"
      by (simp add: readDigits.simps[of rd w])
    then show ?thesis by (rule readDigitsStep_Break)
  next
    case (Continue x)
    obtain rd1 w1 where x: "x = (rd1, w1)" by (cases x)
    with Continue "1.prems" have "readDigits rd1 w1 = (rd', w')"
      by (simp add: readDigits.simps[of rd w])
    from "1.IH"[OF Continue x[symmetric] this] readDigitsStep_Continue[of rd w rd1 w1] Continue x
    show ?thesis by simp
  qed
qed

lemma skipFallback_le: "length (unread (skipFallback rd n)) \<le> length (unread rd)"
proof (induction rd n rule: skipFallback.induct)
  case (1 rd n)
  show ?case
  proof (cases "skipFallbackStep rd n")
    case (Break x)
    obtain rd1 n1 where x: "x = (rd1, n1)" by (cases x)
    with Break have "skipFallback rd n = rd1" by (simp add: skipFallback.simps[of rd n])
    with skipFallbackStep_Break[of rd n rd1 n1] Break x show ?thesis by simp
  next
    case (Continue x)
    obtain rd1 n1 where x: "x = (rd1, n1)" by (cases x)
    with Continue have "skipFallback rd n = skipFallback rd1 n1"
      by (simp add: skipFallback.simps[of rd n])
    with "1.IH"[OF Continue x[symmetric]] skipFallbackStep_Continue[of rd n rd1 n1] Continue x
    show ?thesis by simp
  qed
qed

lemma readSign_le: "readSign rd = (rd', s) \<Longrightarrow> length (unread rd') \<le> length (unread rd)"
  by (auto simp: readSign_def Peek_def ReadByte_def split: if_splits list.splits)

lemma readSpace_le: "length (unread (readSpace rd)) \<le> length (unread rd)"
  by (auto simp: readSpace_def Peek_def ReadByte_def split: if_splits list.splits)

lemma readHexParameter_le:
  "readHexParameter rd = (rd', s) \<Longrightarrow> length (unread rd') \<le> length (unread rd)"
  by (auto simp: readHexParameter_def Peek_def ReadByte_def split: if_splits list.splits)

lemma addChild_reader: "addChild rtfObj c = Some rtfObj' \<Longrightarrow> reader rtfObj' = reader rtfObj"
  by (auto simp: addChild_def split: list.splits)

lemma startGroup_reader: "startGroup rtfObj = Some rtfObj' \<Longrightarrow> reader rtfObj' = reader rtfObj"
  by (auto simp: startGroup_def split: if_splits)

lemma endGroup_reader: "endGroup rtfObj = Some rtfObj' \<Longrightarrow> reader rtfObj' = reader rtfObj"
  by (auto simp: endGroup_def Let_def split: list.splits if_splits)

lemma parseControlSymbol_tok_le:
  "parseControlSymbol_tok rtfObj = Some rtfObj' \<Longrightarrow>
   length (unread (reader rtfObj')) \<le> length (unread (reader rtfObj))"
  by (auto simp: parseControlSymbol_tok_def Peek_def ReadByte_def Let_def
      split: if_splits list.splits prod.splits dest!: addChild_reader readHexParameter_le)

lemma parseControlWord_tok_le:
  assumes "parseControlWord_tok rtfObj = Some rtfObj'"
  shows "length (unread (reader rtfObj')) \<le> length (unread (reader rtfObj))"
proof -
  obtain rd1 w where a: "readLetters (reader rtfObj) [] = (rd1, w)" by (metis prod.exhaust)
  obtain rd2 sg where b: "readSign rd1 = (rd2, sg)" by (metis prod.exhaust)
  obtain rd3 prm where c: "readDigits rd2 sg = (rd3, prm)" by (metis prod.exhaust)
  let ?rd4 = "readSpace rd3"
  have le4: "length (unread ?rd4) \<le> length (unread (reader rtfObj))"
    using readLetters_le[OF a] readSign_le[OF b] readDigits_le[OF c] readSpace_le[of rd3] by linarith
  have "length (unread (reader rtfObj')) \<le> length (unread ?rd4)"
    using assms skipFallback_le[of ?rd4]
    by (auto simp: parseControlWord_tok_def a b c Let_def split: if_splits option.splits
        dest!: addChild_reader)
  with le4 show ?thesis by linarith
qed

lemma parseControl_le:
  "parseControl rtfObj = Some rtfObj' \<Longrightarrow>
   length (unread (reader rtfObj')) \<le> length (unread (reader rtfObj))"
  by (auto simp: parseControl_def Peek_def split: if_splits
      dest!: parseControlSymbol_tok_le parseControlWord_tok_le)


lemma parseTextStep_plain_byte:
  assumes "unread rd = b # rest" "b \<noteq> backslash" "b \<noteq> CHR ''{''" "b \<noteq> CHR ''}''"
  shows "\<exists>rd1 buffer1. parseTextStep rd buffer = Continue (rd1, buffer1)"
  using assms
  by (auto simp: parseTextStep_def Peek_def ReadByte_def ReadRune_def Let_def
      split: if_splits prod.splits list.splits)

lemma parseText_tok_plain_byte:
  assumes "unread (reader rtfObj) = b # rest" "b \<noteq> backslash" "b \<noteq> CHR ''{''" "b \<noteq> CHR ''}''"
    and "parseText_tok rtfObj = Some rtfObj'"
  shows "length (unread (reader rtfObj')) < length (unread (reader rtfObj))"
proof -
  obtain rd1 buffer1 where st: "parseTextStep (reader rtfObj) [] = Continue (rd1, buffer1)"
    using parseTextStep_plain_byte[OF assms(1-4)] by blast
  obtain rd2 buffer2 where lp: "parseTextLoop rd1 buffer1 = (rd2, buffer2)" by (metis prod.exhaust)
  from st lp have "parseTextLoop (reader rtfObj) [] = (rd2, buffer2)"
    by (simp add: parseTextLoop.simps[of "reader rtfObj" "[]"])
  with assms(5) have "reader rtfObj' = rd2"
    by (auto simp: parseText_tok_def split: if_splits dest: addChild_reader)
  with parseTextLoop_le[OF lp] parseTextStep_Continue[OF st] show ?thesis by simp
qed

lemma parseStep_Continue:
  assumes "parseStep rtfObj = Some (True, rtfObj')"
  shows "length (unread (reader rtfObj')) < length (unread (reader rtfObj))"
proof -
  obtain bo rd where rb: "ReadByte (reader rtfObj) = (bo, rd)" by (metis prod.exhaust)
  from assms rb obtain b where bo: "bo = Some b"
    by (cases bo) (auto simp: parseStep_def Let_def split: if_splits option.splits)
  from rb bo have u: "unread (reader rtfObj) = b # unread rd" and lb: "lastByte rd = Some b"
    by (auto simp: ReadByte_def split: list.splits)
  let ?s1 = "rtfObj\<lparr>reader := rd\<rparr>"
  from assms rb bo have nc: "\<not> (openGroups ?s1 = [] \<and> rootOpened ?s1)"
    by (auto simp: parseStep_def Let_def split: if_splits)
  consider (open') "b = CHR ''{''" | (close') "b = CHR ''}''" | (ctl) "b = backslash"
    | (plain) "b \<noteq> CHR ''{''" "b \<noteq> CHR ''}''" "b \<noteq> backslash"
    by blast
  then show ?thesis
  proof cases
    case open'
    with assms rb bo nc have "startGroup ?s1 = Some rtfObj'"
      by (auto simp: parseStep_def Let_def split: if_splits option.splits)
    from startGroup_reader[OF this] u show ?thesis by simp
  next
    case close'
    with assms rb bo nc have "endGroup ?s1 = Some rtfObj'"
      by (auto simp: parseStep_def Let_def split: if_splits option.splits)
    from endGroup_reader[OF this] u show ?thesis by simp
  next
    case ctl
    with assms rb bo nc have "parseControl ?s1 = Some rtfObj'"
      by (auto simp: parseStep_def Let_def split: if_splits option.splits)
    from parseControl_le[OF this] u show ?thesis by simp
  next
    case plain
    let ?s2 = "?s1\<lparr>reader := UnreadByte rd\<rparr>"
    from plain assms rb bo nc have pt: "parseText_tok ?s2 = Some rtfObj'"
      by (auto simp: parseStep_def Let_def split: if_splits option.splits)
    from lb have "unread (reader ?s2) = b # unread rd" by (simp add: UnreadByte_def)
    from parseText_tok_plain_byte[OF this plain(3,1,2) pt] this u show ?thesis by simp
  qed
qed

text \<open>
  The loop of \<^verbatim>\<open>Parse\<close>, and \<^verbatim>\<open>ParseBytes\<close> on a fresh \<^verbatim>\<open>RtfStructure\<close>.  The
  error that \<^verbatim>\<open>Parse\<close> returns is the one of the last \<^verbatim>\<open>ReadByte\<close>; the callers
  (\<^verbatim>\<open>SetBytes\<close>, \<^verbatim>\<open>LoadFile\<close>) drop it, and the model returns the structure.
\<close>

function Parse_tok :: "RtfStructure \<Rightarrow> RtfStructure option" where
  "Parse_tok rtfObj =
     (case parseStep rtfObj of
        None \<Rightarrow> None
      | Some (again, rtfObj1) \<Rightarrow> if again then Parse_tok rtfObj1 else Some rtfObj1)"
  by pat_completeness auto
termination
  by (relation "measure (\<lambda>rtfObj. length (unread (reader rtfObj)))")
    (auto dest: parseStep_Continue)

declare Parse_tok.simps [simp del]

definition newRtfStructure :: "byte list \<Rightarrow> RtfStructure" where
  "newRtfStructure content_bytes =
     \<lparr>reader = \<lparr>unread = content_bytes, lastByte = None\<rparr>, rootOpened = False,
      openGroups = [], closedRoot = [], uc = []\<rparr>"

definition ParseBytes :: "byte list \<Rightarrow> RtfStructure option" where
  "ParseBytes content_bytes = Parse_tok (newRtfStructure content_bytes)"

subsection \<open>The invariant of the tokenizer's stacks\<close>

text \<open>
  The \<^verbatim>\<open>uc\<close> stack has one entry per open group, and no group is open before the root
  has been opened.
\<close>

definition depthInv :: "RtfStructure \<Rightarrow> bool" where
  "depthInv s = (length (uc s) = length (openGroups s) \<and> (rootOpened s \<or> openGroups s = []))"

subsection \<open>Balanced documents\<close>

text \<open>
  A byte is plain when it is neither a brace nor a backslash.
\<close>

definition plainByte :: "byte \<Rightarrow> bool" where
  "plainByte c = (c \<noteq> CHR ''{'' \<and> c \<noteq> CHR ''}'' \<and> c \<noteq> backslash)"

text \<open>
  The bytes that follow a \<^verbatim>\<open>\u\<close> control word, up to the next brace, hold no
  backslash except as the start of \<^verbatim>\<open>\'\<close> followed by two plain bytes.
\<close>

fun fallbackPlain :: "byte list \<Rightarrow> bool" where
  "fallbackPlain [] = True"
| "fallbackPlain (c # cs) =
     (if c = CHR ''{'' \<or> c = CHR ''}'' then True
      else if c = backslash then
        (case cs of
           q # a # b # rest \<Rightarrow> q = CHR 0x27 \<and> plainByte a \<and> plainByte b \<and> fallbackPlain rest
         | _ \<Rightarrow> False)
      else fallbackPlain cs)"

text \<open>
  \<open>balancedFrom n bytes\<close>: read inside \<open>n + 1\<close> open groups, the bytes close all of
  them, the outermost last.  A backslash escapes the byte after it, so that an escaped
  brace opens or closes nothing; what follows the closing brace of the outermost group is
  not looked at.  A control word \<^verbatim>\<open>\u\<close> (the letter \<open>u\<close> with no letter after it)
  is admitted only with a fallback as described by \<open>fallbackPlain\<close>.
\<close>

fun balancedFrom :: "nat \<Rightarrow> byte list \<Rightarrow> bool" where
  "balancedFrom n [] = False"
| "balancedFrom n (c # cs) =
     (if c = CHR ''{'' then balancedFrom (Suc n) cs
      else if c = CHR ''}'' then (case n of 0 \<Rightarrow> True | Suc m \<Rightarrow> balancedFrom m cs)
      else if c = backslash then
        (case cs of
           [] \<Rightarrow> False
         | e # rest \<Rightarrow>
             if e = CHR ''u'' \<and> (case rest of [] \<Rightarrow> True | l # ls \<Rightarrow> \<not> ByteIsAsciiLetter l)
             then fallbackPlain rest \<and> balancedFrom n rest
             else balancedFrom n rest)
      else balancedFrom n cs)"

declare balancedFrom.simps(2) [simp del]
declare fallbackPlain.simps(2) [simp del]

text \<open>A well-formed document: it opens the root group with its first byte and closes it.\<close>

definition wellFormed :: "byte list \<Rightarrow> bool" where
  "wellFormed content_bytes =
     (case content_bytes of [] \<Rightarrow> False | c # cs \<Rightarrow> c = CHR ''{'' \<and> balancedFrom 0 cs)"





section \<open>The checksum of the source is the bitwise CRC-32 without inversions\<close>

lemma crc_table_bits_funpow: "crc_table_bits j c = (crc32_bit_step ^^ j) c"
proof (induction j arbitrary: c)
  case 0
  show ?case by simp
next
  case (Suc j)
  have "(c AND 1 = 1) = odd c"
    by (simp add: and_one_eq mod_2_eq_odd)
  then have "(if c AND 1 = 1 then 0xEDB88320 XOR shiftZeroLeft c 1 else shiftZeroLeft c 1)
      = crc32_bit_step c"
    by (simp add: crc32_bit_step_def shiftZeroLeft_def xor.commute)
  then show ?case
    by (simp add: Suc funpow_swap1)
qed

lemma crc32_bit_step_xor: "crc32_bit_step (a XOR b) = crc32_bit_step a XOR crc32_bit_step b"
  by (simp add: crc32_bit_step_def even_xor_iff drop_bit_xor ac_simps)

lemma crc32_bit_step_zero: "crc32_bit_step 0 = 0"
  by (simp add: crc32_bit_step_def)

lemma crc32_funpow_xor:
  "(crc32_bit_step ^^ n) (a XOR b) = (crc32_bit_step ^^ n) a XOR (crc32_bit_step ^^ n) b"
  by (induction n arbitrary: a b) (simp_all add: funpow_swap1 crc32_bit_step_xor)

lemma crc32_funpow_split:
  "(crc32_bit_step ^^ n) x = (crc32_bit_step ^^ n) (take_bit n x) XOR drop_bit n x"
proof (induction n arbitrary: x)
  case 0
  show ?case by simp
next
  case (Suc n)
  define p :: int where "p = (if odd x then 0xEDB88320 else 0)"
  have sx: "crc32_bit_step x = drop_bit 1 x XOR p"
    by (simp add: crc32_bit_step_def p_def)
  have st: "crc32_bit_step (take_bit (Suc n) x) = take_bit n (drop_bit 1 x) XOR p"
    by (simp add: crc32_bit_step_def p_def drop_bit_take_bit)
  have "(crc32_bit_step ^^ Suc n) x = (crc32_bit_step ^^ n) (drop_bit 1 x) XOR (crc32_bit_step ^^ n) p"
    by (simp add: funpow_swap1 sx crc32_funpow_xor)
  also have "(crc32_bit_step ^^ n) (drop_bit 1 x) =
      (crc32_bit_step ^^ n) (take_bit n (drop_bit 1 x)) XOR drop_bit n (drop_bit 1 x)"
    by (rule Suc.IH)
  finally have "(crc32_bit_step ^^ Suc n) x =
      ((crc32_bit_step ^^ n) (take_bit n (drop_bit 1 x)) XOR (crc32_bit_step ^^ n) p) XOR drop_bit (Suc n) x"
    by (simp add: ac_simps drop_bit_drop_bit)
  moreover have "(crc32_bit_step ^^ Suc n) (take_bit (Suc n) x) =
      (crc32_bit_step ^^ n) (take_bit n (drop_bit 1 x)) XOR (crc32_bit_step ^^ n) p"
    by (simp add: funpow_swap1 st crc32_funpow_xor)
  ultimately show ?case by simp
qed

lemma length_CRC32_TABLE: "length CRC32_TABLE = 256"
  by (simp add: CRC32_TABLE_def)

lemma CRC32_TABLE_lookup:
  "index_at CRC32_TABLE (x AND 0xFF) = Some ((crc32_bit_step ^^ 8) (take_bit 8 x))"
proof -
  have m: "x AND 0xFF = take_bit 8 x"
    using take_bit_eq_mask[of 8 x] by (simp add: mask_eq_exp_minus_1)
  have r: "0 \<le> take_bit 8 x" "take_bit 8 x < 256"
    using take_bit_int_less_exp[of 8 x] by simp_all
  then have "nat (take_bit 8 x) < 256" by linarith
  then have "CRC32_TABLE ! nat (take_bit 8 x) = (crc32_bit_step ^^ 8) (take_bit 8 x)"
    using r by (simp add: CRC32_TABLE_def crc_table_bits_funpow del: funpow.simps)
  then show ?thesis
    using r by (simp add: m index_at_def length_CRC32_TABLE)
qed

lemma crc_byte_step:
  "(crc32_bit_step ^^ 8) (take_bit 8 (crc XOR of_char b)) XOR shiftZeroLeft crc 8
   = (crc32_bit_step ^^ 8) (crc XOR of_char b)"
proof -
  have "(of_char b :: int) < 256" "0 \<le> (of_char b :: int)"
    by (simp_all add: of_char_def)
  then have "drop_bit 8 (of_char b :: int) = 0"
    by (simp add: drop_bit_eq_div)
  then have "drop_bit 8 (crc XOR of_char b) = drop_bit 8 crc"
    by (simp add: drop_bit_xor)
  then show ?thesis
    using crc32_funpow_split[of 8 "crc XOR of_char b"] by (simp add: shiftZeroLeft_def del: funpow.simps)
qed

lemma calculateCRC32Continue_refines:
  "0 \<le> i \<Longrightarrow> i \<le> e \<Longrightarrow> e \<le> int (length buf) \<Longrightarrow>
   calculateCRC32Continue buf i e crc = Some (crc32_bitwise_from crc (take (nat (e - i)) (drop (nat i) buf)))"
proof (induction buf i e crc rule: calculateCRC32Continue.induct)
  case (1 buf i e crc)
  show ?case
  proof (cases "i < e")
    case False
    with 1 have "i = e" by simp
    then show ?thesis by (subst calculateCRC32Continue.simps) simp
  next
    case True
    with 1 have ib: "index_at buf i = Some (buf ! nat i)" by (simp add: index_at_def)
    have tl: "take (nat (e - i)) (drop (nat i) buf) = buf ! nat i # take (nat (e - (i + 1))) (drop (nat (i + 1)) buf)"
    proof -
      from True 1 have "nat i < length buf" by linarith
      then have "drop (nat i) buf = buf ! nat i # drop (Suc (nat i)) buf"
        by (simp add: Cons_nth_drop_Suc)
      moreover from True 1 have "nat (e - i) = Suc (nat (e - (i + 1)))" by linarith
      moreover from 1 have "nat (i + 1) = Suc (nat i)" by linarith
      ultimately show ?thesis by simp
    qed
    from True 1 have ih: "calculateCRC32Continue buf (i + 1) e
         ((crc32_bit_step ^^ 8) (take_bit 8 (crc XOR of_char (buf ! nat i))) XOR shiftZeroLeft crc 8)
        = Some (crc32_bitwise_from ((crc32_bit_step ^^ 8) (take_bit 8 (crc XOR of_char (buf ! nat i))) XOR shiftZeroLeft crc 8)
            (take (nat (e - (i + 1))) (drop (nat (i + 1)) buf)))"
      by (intro "1.IH"[OF True ib CRC32_TABLE_lookup]) simp_all
    note ih2 = ih[unfolded crc_byte_step]
    show ?thesis
      apply (subst calculateCRC32Continue.simps)
      apply (simp only: True if_True ib option.case CRC32_TABLE_lookup tl crc32_bitwise_from.simps crc_byte_step ih2)
      done
  qed
qed

lemma calculateCRC32_refines:
  "16 \<le> length src \<Longrightarrow>
   calculateCRC32 src 16 (int (length src) - 16) = Some (crc32_no_inversion (drop 16 src))"
  using calculateCRC32Continue_refines[of 16 "int (length src)" src 0]
  by (simp add: calculateCRC32_def crc32_no_inversion_def)

section \<open>Properties of the decompressor\<close>

lemma length_PREBUF: "length COMPRESSED_RTF_PREBUF = 207"
  by (simp add: COMPRESSED_RTF_PREBUF_def)

lemma getU32_Some: "4 \<le> length buf \<Longrightarrow> 0 \<le> off \<Longrightarrow> off + 4 \<le> int (length buf) \<Longrightarrow> \<exists>v. getU32 buf off = Some v \<and> 0 \<le> v"
  by (simp add: getU32_def index_at_def)

lemma getU32_stream_literal_A: "getU32 stream_literal_A 0 = Some 16" "getU32 stream_literal_A 4 = Some 1" "getU32 stream_literal_A 8 = Some MAGIC_COMPRESSED"
  "getU32 stream_literal_A 12 = Some 0x6eff5131"
  by (simp_all add: getU32_def index_at_def stream_literal_A_def MAGIC_COMPRESSED_def)

lemma crc_table_bits_numeral:
  "crc_table_bits (numeral n) c =
     crc_table_bits (pred_numeral n)
       (if c AND 1 = 1 then 0xEDB88320 XOR shiftZeroLeft c 1 else shiftZeroLeft c 1)"
  by (simp add: numeral_eq_Suc)

lemma crc_stream_literal_A: "calculateCRC32 stream_literal_A 16 4 = Some 0x6eff5131"
  by (simp add: calculateCRC32_def calculateCRC32Continue.simps index_at_def stream_literal_A_def CRC32_TABLE_def shiftZeroLeft_def crc_table_bits_numeral)


lemma decodeLoop_stream_literal_A: "decodeLoop stream_literal_A (COMPRESSED_RTF_PREBUF @ replicate (nat 1) (CHR 0x00)) 16 207 0 0
   = Some (COMPRESSED_RTF_PREBUF @ ''A'')"
  by (simp add: decodeLoop.simps nextFlags_def index_at_def in_range_def store_at_def stream_literal_A_def
      length_PREBUF refOffset_def refLength_def DICT_MASK_def DICT_SIZE_def shiftZeroLeft_def
      list_update_append)

lemma Decompress_stream_literal_A: "Decompress stream_literal_A = Ok ''A''"
  using getU32_stream_literal_A crc_stream_literal_A decodeLoop_stream_literal_A
  by (simp add: Decompress_def length_PREBUF) (simp add: stream_literal_A_def MAGIC_COMPRESSED_def MAGIC_UNCOMPRESSED_def)

lemma copyLoop_length: "copyLoop dst out offset e = Some (dst1, out1) \<Longrightarrow> length dst1 = length dst"
proof (induction dst out offset e rule: copyLoop.induct)
  case (1 dst out offset end')
  then show ?case
    by (subst (asm) (2) copyLoop.simps) (auto simp: store_at_def split: if_splits option.splits)
qed

lemma decodeLoop_length: "decodeLoop src dst i out fc fl = Some dst1 \<Longrightarrow> length dst1 = length dst"
proof (induction src dst i out fc fl rule: decodeLoop.induct)
  case (1 src dst in' out fc fl)
  note prem = "1.prems"[unfolded decodeLoop.simps[of src dst in' out fc fl]]
  from prem obtain flags1 in1 where nf: "nextFlags src in' fc fl = Some (flags1, in1)"
    by (cases "nextFlags src in' fc fl") auto
  show ?case
  proof (cases "flags1 AND 1 = 0")
    case True
    with prem nf obtain b where b: "index_at src in1 = Some b" "in_range dst out"
      and rec: "decodeLoop src (store_at dst out b) (in1 + 1) (out + 1) (fc + 1) flags1 = Some dst1"
      by (cases "index_at src in1"; cases "in_range dst out") simp_all
    from "1.IH"(1)[OF nf refl True b rec] show ?thesis by (simp add: store_at_def)
  next
    case False
    with prem nf obtain hi lo where hi: "index_at src in1 = Some hi" and lo: "index_at src (in1 + 1) = Some lo"
      by (cases "index_at src in1"; cases "index_at src (in1 + 1)") simp_all
    let ?offset = "refOffset out hi lo"
    let ?offset1 = "if out \<le> ?offset then ?offset - DICT_SIZE else ?offset"
    show ?thesis
    proof (cases "out \<le> ?offset \<and> ?offset = out")
      case True
      with prem nf False hi lo show ?thesis by (simp add: Let_def)
    next
      case nb: False
      with prem nf False hi lo obtain dst2 out2 where
        cp: "copyLoop dst out ?offset1 (?offset1 + refLength lo) = Some (dst2, out2)"
        and rec: "decodeLoop src dst2 (in1 + 2) out2 (fc + 1) flags1 = Some dst1"
        by (cases "copyLoop dst out ?offset1 (?offset1 + refLength lo)")
          (auto simp: Let_def)
      from "1.IH"(2)[OF nf refl False hi lo refl refl nb refl cp refl rec]
      have "length dst1 = length dst2" .
      with copyLoop_length[OF cp] show ?thesis by simp
    qed
  qed
qed

lemma decodeLoop_sentinel:
  assumes "nextFlags src in' flagCount flags = Some (flags1, in1)"
    and "flags1 AND 1 \<noteq> 0"
    and "index_at src in1 = Some hi" and "index_at src (in1 + 1) = Some lo"
    and "refOffset out hi lo = out"
  shows "decodeLoop src dst in' out flagCount flags = Some dst"
  using assms by (subst decodeLoop.simps) (simp add: Let_def)

lemma getU32_nonneg: "getU32 buf off = Some v \<Longrightarrow> 0 \<le> v"
  by (auto simp: getU32_def split: option.splits)

lemma getU32_header:
  assumes "16 \<le> length src"
  obtains cs us mg cr where "getU32 src 0 = Some cs" "getU32 src 4 = Some us"
    "getU32 src 8 = Some mg" "getU32 src 12 = Some cr"
proof -
  from assms obtain cs where 1: "getU32 src 0 = Some cs" using getU32_Some[of src 0] by auto
  from assms obtain us where 2: "getU32 src 4 = Some us" using getU32_Some[of src 4] by auto
  from assms obtain mg where 3: "getU32 src 8 = Some mg" using getU32_Some[of src 8] by auto
  from assms obtain cr where 4: "getU32 src 12 = Some cr" using getU32_Some[of src 12] by auto
  from 1 2 3 4 that show thesis by blast
qed

lemma magic_distinct: "MAGIC_COMPRESSED \<noteq> MAGIC_UNCOMPRESSED"
  by (simp add: MAGIC_COMPRESSED_def MAGIC_UNCOMPRESSED_def)

lemma Decompress_compressed_length:
  assumes "getU32 src 8 = Some MAGIC_COMPRESSED" and "Decompress src = Ok res"
  shows "getU32 src 4 = Some (int (length res))"
proof -
  from assms(2) have len: "16 \<le> length src"
    by (simp add: Decompress_def split: if_splits)
  then obtain cs us cr where h: "getU32 src 0 = Some cs" "getU32 src 4 = Some us" "getU32 src 12 = Some cr"
    by (rule getU32_header)
  from assms len h magic_distinct obtain dst1 where
    d: "decodeLoop src (COMPRESSED_RTF_PREBUF @ replicate (nat us) (CHR 0x00)) 16
          (int (length COMPRESSED_RTF_PREBUF)) 0 0 = Some dst1"
    and r: "res = drop (length COMPRESSED_RTF_PREBUF) dst1"
    by (auto simp: Decompress_def Let_def split: if_splits option.splits)
  from decodeLoop_length[OF d] r have "length res = nat us" by simp
  with getU32_nonneg[OF h(2)] h(2) show ?thesis by simp
qed

text \<open>
  Claim C7.  In \<open>Decompress\<close> on a stream with the compressed magic, a back-reference
  whose absolute offset (its twelve bits placed in the 4096-byte block of the write
  position) equals the write position \<open>out\<close> ends the decode loop at that point, with
  the buffer as it is; and whenever the compressed path returns bytes, the returned slice
  (the buffer without the 207-byte preamble) is exactly as long as the header field
  \<open>uncompressedSize\<close> (\<open>getU32 src 4\<close>) says.
\<close>

theorem Decompress_sentinel_and_length:
  "(nextFlags src in' flagCount flags = Some (flags1, in1) \<and> flags1 AND 1 \<noteq> 0
      \<and> index_at src in1 = Some hi \<and> index_at src (in1 + 1) = Some lo
      \<and> refOffset out hi lo = out
    \<longrightarrow> decodeLoop src dst in' out flagCount flags = Some dst)
   \<and> (getU32 src 8 = Some MAGIC_COMPRESSED \<and> Decompress src = Ok res
    \<longrightarrow> getU32 src 4 = Some (int (length res)))"
  using decodeLoop_sentinel Decompress_compressed_length by blast


theorem Decompress_sentinel_and_length_witness:
  "decodeLoop stream_literal_A (COMPRESSED_RTF_PREBUF @ ''A'') 18 208 1 2 = Some (COMPRESSED_RTF_PREBUF @ ''A'')
   \<and> Decompress stream_literal_A = Ok ''A'' \<and> getU32 stream_literal_A 4 = Some 1"
proof -
  have a: "nextFlags stream_literal_A 18 1 2 = Some (1, 18)"
    by (simp add: nextFlags_def)
  have b: "index_at stream_literal_A 18 = Some (CHR 0x0D)" "index_at stream_literal_A (18 + 1) = Some (CHR 0x00)"
    by (simp_all add: index_at_def stream_literal_A_def)
  have c: "refOffset 208 (CHR 0x0D) (CHR 0x00) = 208"
    by (simp add: refOffset_def DICT_MASK_def DICT_SIZE_def shiftZeroLeft_def)
  have d: "(1::int) AND 1 \<noteq> 0" by simp
  from Decompress_sentinel_and_length[of stream_literal_A 18 1 2 1 18 "CHR 0x0D" "CHR 0x00" 208
      "COMPRESSED_RTF_PREBUF @ ''A''" "''A''"] a b c d getU32_stream_literal_A Decompress_stream_literal_A
  show ?thesis by simp
qed

lemma Decompress_cases:
  assumes len: "16 \<le> length src"
    and h: "getU32 src 0 = Some cs" "getU32 src 4 = Some us" "getU32 src 8 = Some mg"
      "getU32 src 12 = Some cr"
  shows "Decompress src =
     (if cs \<noteq> int (length src) - 4 then Error SizeMismatch
      else if mg = MAGIC_UNCOMPRESSED then Ok src
      else if mg = MAGIC_COMPRESSED then
        (if cr \<noteq> crc32_no_inversion (drop 16 src) then Error CrcFailed
         else (case decodeLoop src (COMPRESSED_RTF_PREBUF @ replicate (nat us) (CHR 0x00)) 16
                      (int (length COMPRESSED_RTF_PREBUF)) 0 0 of
                 None \<Rightarrow> Panic
               | Some dst1 \<Rightarrow> Ok (drop (length COMPRESSED_RTF_PREBUF) dst1)))
      else Error UnknownMagic)"
  using len by (simp add: Decompress_def h calculateCRC32_refines[OF len] Let_def)

text \<open>
  Claim C8.  \<open>Decompress\<close> returns an error value exactly when one of its integrity
  checks fails: the input is shorter than 16 bytes (a nil slice has length 0); the header
  field \<open>compressedSize\<close> (\<open>getU32 src 0\<close>) differs from \<open>len(src) - 4\<close>; the magic
  (\<open>getU32 src 8\<close>) is neither constant; or the magic is the compressed one and the
  header field \<open>crc32\<close> (\<open>getU32 src 12\<close>) differs from the CRC-32 of the bytes from
  offset 16 to the end, computed bit by bit with the polynomial \<open>0xEDB88320\<close>, initial
  value 0 and no inversion.  When every applicable check passes no error is returned.
\<close>

theorem Decompress_error_iff:
  "(\<exists>e. Decompress src = Error e) \<longleftrightarrow>
     (length src < 16
      \<or> getU32 src 0 \<noteq> Some (int (length src) - 4)
      \<or> (getU32 src 8 \<noteq> Some MAGIC_COMPRESSED \<and> getU32 src 8 \<noteq> Some MAGIC_UNCOMPRESSED)
      \<or> (getU32 src 8 = Some MAGIC_COMPRESSED
          \<and> getU32 src 12 \<noteq> Some (crc32_no_inversion (drop 16 src))))"
proof (cases "length src < 16")
  case True
  then show ?thesis by (simp add: Decompress_def)
next
  case False
  then have len: "16 \<le> length src" by simp
  then obtain cs us mg cr where h: "getU32 src 0 = Some cs" "getU32 src 4 = Some us"
    "getU32 src 8 = Some mg" "getU32 src 12 = Some cr"
    by (rule getU32_header)
  show ?thesis
    using magic_distinct
    by (simp add: Decompress_cases[OF len h] h False split: option.splits)
qed


theorem Decompress_error_iff_witness:
  "\<not> (\<exists>e. Decompress stream_literal_A = Error e) \<and> (\<exists>e. Decompress stream_literal_A_bad_crc = Error e)"
proof -
  have "calculateCRC32 stream_literal_A 16 (int (length stream_literal_A) - 16) = Some (crc32_no_inversion (drop 16 stream_literal_A))"
    by (rule calculateCRC32_refines) (simp add: stream_literal_A_def)
  with crc_stream_literal_A have c: "crc32_no_inversion (drop 16 stream_literal_A) = 0x6eff5131"
    by (simp add: stream_literal_A_def)
  have l: "length stream_literal_A = 20" by (simp add: stream_literal_A_def)
  have 1: "\<not> (\<exists>e. Decompress stream_literal_A = Error e)"
    using Decompress_error_iff[of stream_literal_A] getU32_stream_literal_A c l magic_distinct by simp
  have "drop 16 stream_literal_A_bad_crc = drop 16 stream_literal_A"
    by (simp add: stream_literal_A_def stream_literal_A_bad_crc_def)
  moreover have "getU32 stream_literal_A_bad_crc 8 = Some MAGIC_COMPRESSED" "getU32 stream_literal_A_bad_crc 12 = Some 0"
    by (simp_all add: getU32_def index_at_def stream_literal_A_bad_crc_def MAGIC_COMPRESSED_def)
  ultimately have 2: "\<exists>e. Decompress stream_literal_A_bad_crc = Error e"
    using Decompress_error_iff[of stream_literal_A_bad_crc] c by simp
  from 1 2 show ?thesis by simp
qed

lemma Decompress_header_only:
  "Decompress [CHR 0x0C, CHR 0x00, CHR 0x00, CHR 0x00, CHR 0x00, CHR 0x00, CHR 0x00, CHR 0x00,
               CHR 0x4C, CHR 0x5A, CHR 0x46, CHR 0x75, CHR 0x00, CHR 0x00, CHR 0x00, CHR 0x00] = Panic"
  by (simp add: Decompress_def getU32_def index_at_def MAGIC_COMPRESSED_def MAGIC_UNCOMPRESSED_def
      calculateCRC32_def calculateCRC32Continue.simps decodeLoop.simps nextFlags_def)

lemma Decompress_stream_literal_A_size0: "Decompress stream_literal_A_size0 = Panic"
proof -
  have g: "getU32 stream_literal_A_size0 0 = Some 16" "getU32 stream_literal_A_size0 4 = Some 0"
    "getU32 stream_literal_A_size0 8 = Some MAGIC_COMPRESSED"
    "getU32 stream_literal_A_size0 12 = Some 0x6eff5131"
    by (simp_all add: getU32_def index_at_def stream_literal_A_size0_def MAGIC_COMPRESSED_def)
  have c: "calculateCRC32 stream_literal_A_size0 16 4 = Some 0x6eff5131"
    by (simp add: calculateCRC32_def calculateCRC32Continue.simps index_at_def
        stream_literal_A_size0_def CRC32_TABLE_def shiftZeroLeft_def crc_table_bits_numeral)
  have d: "decodeLoop stream_literal_A_size0 (COMPRESSED_RTF_PREBUF @ replicate (nat 0) (CHR 0x00))
      16 207 0 0 = None"
    by (simp add: decodeLoop.simps nextFlags_def index_at_def in_range_def
        stream_literal_A_size0_def length_PREBUF)
  from g c d show ?thesis
    by (simp add: Decompress_def length_PREBUF)
      (simp add: stream_literal_A_size0_def MAGIC_COMPRESSED_def MAGIC_UNCOMPRESSED_def)
qed

text \<open>
  Claim C9 says that \<open>Decompress\<close> is total: every input yields bytes or an error value,
  and the decode loop never indexes \<open>src\<close> or \<open>dst\<close> out of range.  The loop has no
  bounds check of its own.  The first stream below is a header only: compressed size 12,
  uncompressed size 0, the compressed magic and the checksum 0 of the empty payload.  It
  passes the length, size and checksum tests, and the first \<^verbatim>\<open>flags = int(src[in])\<close> then
  reads \<open>src[16]\<close>, outside the slice.  The second stream holds one literal and the end
  mark, with the right checksum, but declares the uncompressed size 0: the literal is
  written to \<open>dst[207]\<close>, outside the 207-byte buffer.  Either call panics and returns
  nothing.
\<close>

theorem Decompress_panics_on_truncated_payload:
  "Decompress [CHR 0x0C, CHR 0x00, CHR 0x00, CHR 0x00, CHR 0x00, CHR 0x00, CHR 0x00, CHR 0x00,
               CHR 0x4C, CHR 0x5A, CHR 0x46, CHR 0x75, CHR 0x00, CHR 0x00, CHR 0x00, CHR 0x00] = Panic
   \<and> Decompress stream_literal_A_size0 = Panic"
  using Decompress_header_only Decompress_stream_literal_A_size0 by simp

section \<open>Properties of the encapsulation detection\<close>

lemma scanChildren_Counted:
  "scanChildren w items idx = Counted idx1 \<Longrightarrow> idx1 = idx + int (length items)"
  by (induction w items idx rule: scanChildren.induct) (auto split: if_splits)

lemma scanChildren_Found_iff:
  "scanChildren w items idx = Found \<longleftrightarrow> (\<exists>parameter. RtfControlWord w parameter \<in> set items)"
  by (induction w items idx rule: scanChildren.induct) auto

lemma encapsulatedLoop_no_children:
  assumes "encapsulatedLoop w children idx = Some y"
  shows "children = [] \<longrightarrow> 10 < idx"
proof (rule encapsulatedLoop.raw_induct[where P = "\<lambda>w children idx y. children = [] \<longrightarrow> 10 < idx", OF _ assms])
  fix f :: "string \<Rightarrow> rtfElement list \<Rightarrow> int \<Rightarrow> bool option" and w children idx y
  assume ih: "\<And>w children idx y. f w children idx = Some y \<Longrightarrow> children = [] \<longrightarrow> 10 < idx"
    and body: "(case scanChildren w children idx of Found \<Rightarrow> Some True
      | Counted idx1 \<Rightarrow> if 10 < idx1 then Some False else f w children idx1) = Some y"
  show "children = [] \<longrightarrow> 10 < idx"
  proof
    assume e: "children = []"
    show "10 < idx"
    proof (rule ccontr)
      assume "\<not> 10 < idx"
      with body e have "f w [] idx = Some y" by simp
      with ih[of w "[]" idx y] \<open>\<not> 10 < idx\<close> show False by simp
    qed
  qed
qed

lemma encapsulatedLoop_no_children_None: "idx \<le> 10 \<Longrightarrow> encapsulatedLoop w [] idx = None"
  using encapsulatedLoop_no_children[of w "[]" idx] by (cases "encapsulatedLoop w [] idx") auto

lemma encapsulatedLoop_children:
  assumes "children \<noteq> []"
  shows "encapsulatedLoop w children idx = Some (\<exists>parameter. RtfControlWord w parameter \<in> set children)"
proof (induction "nat (11 - idx)" arbitrary: idx rule: less_induct)
  case less
  show ?case
  proof (cases "scanChildren w children idx")
    case Found
    then show ?thesis
      using scanChildren_Found_iff[of w children idx] by (subst encapsulatedLoop.simps) simp
  next
    case (Counted idx1)
    then have i1: "idx1 = idx + int (length children)" by (rule scanChildren_Counted)
    from Counted have nf: "\<not> (\<exists>parameter. RtfControlWord w parameter \<in> set children)"
      using scanChildren_Found_iff[of w children idx] by simp
    show ?thesis
    proof (cases "10 < idx1")
      case True
      with Counted nf show ?thesis by (subst encapsulatedLoop.simps) simp
    next
      case False
      from assms i1 have "idx < idx1" by (cases children) auto
      with False have "nat (11 - idx1) < nat (11 - idx)" by linarith
      from less[OF this] Counted False show ?thesis
        by (subst encapsulatedLoop.simps) simp
    qed
  qed
qed

text \<open>
  With at least one child the call returns, and its answer is whether the word occurs
  anywhere among the root's children, at whatever position.
\<close>

lemma IsHtmlEncapsulated_nonempty:
  "children \<noteq> [] \<Longrightarrow>
   IsHtmlEncapsulated children = Some (\<exists>parameter. RtfControlWord ''fromhtml'' parameter \<in> set children)"
  by (simp add: IsHtmlEncapsulated_def encapsulatedLoop_children)

lemma IsTextEncapsulated_nonempty:
  "children \<noteq> [] \<Longrightarrow>
   IsTextEncapsulated children = Some (\<exists>parameter. RtfControlWord ''fromtext'' parameter \<in> set children)"
  by (simp add: IsTextEncapsulated_def encapsulatedLoop_children)

text \<open>
  Claim C2 says that encapsulation detection looks at no more than the first ten root-level
  tokens and always terminates, also for a root without children.  The comment above
  \<^verbatim>\<open>IsHtmlEncapsulated\<close> quotes the same rule of MS-OXRTFEX, and the loop counts to ten,
  but the counter is compared only after a complete pass over all the children.  For a
  root without children the counter never moves and the call does not return (\<open>None\<close>);
  for a root whose eleventh token is the control word, the call answers \<open>true\<close>.
\<close>

theorem IsHtmlEncapsulated_scans_all_or_diverges:
  "IsHtmlEncapsulated [] = None \<and> IsTextEncapsulated [] = None
   \<and> IsHtmlEncapsulated (replicate 10 (RtfText ''x'') @ [RtfControlWord ''fromhtml'' ''1'']) = Some True
   \<and> IsTextEncapsulated (replicate 10 (RtfText ''x'') @ [RtfControlWord ''fromtext'' ''1'']) = Some True"
  by (simp add: IsHtmlEncapsulated_def IsTextEncapsulated_def encapsulatedLoop_no_children_None
      encapsulatedLoop_children)

section \<open>Properties of the interpreter\<close>

subsection \<open>The stack of saved states\<close>

lemma copy_is_new: "copy c = NewRtfState"
  by (simp add: copy_def NewRtfState_def Let_def)

lemma groupHeader_stack:
  "groupHeader p children = (a, b, p1) \<Longrightarrow> groupsInitialStates p1 = groupsInitialStates p"
  by (auto simp: groupHeader_def Let_def split: if_splits rtfElement.splits prod.splits)

lemma groupHeader_state:
  "groupHeader p children = (a, b, p1) \<Longrightarrow> groupCurrentState p1 = groupCurrentState p"
  by (auto simp: groupHeader_def Let_def split: if_splits rtfElement.splits prod.splits)

lemma leaveHtmlTag_stack [simp]: "groupsInitialStates (leaveHtmlTag a p) = groupsInitialStates p"
  by (simp add: leaveHtmlTag_def Let_def)

lemma leaveHtmlTag_state [simp]: "groupCurrentState (leaveHtmlTag a p) = groupCurrentState p"
  by (simp add: leaveHtmlTag_def Let_def)

lemma updateState_stack [simp]: "groupsInitialStates (updateState p w v) = groupsInitialStates p"
  by (simp add: updateState_def Let_def)

lemma WriteString_stack [simp]: "groupsInitialStates (WriteString p s) = groupsInitialStates p"
  by (simp add: WriteString_def)

lemma parseControlWord_stack [simp]:
  "groupsInitialStates (parseControlWord p w v) = groupsInitialStates p"
  by (simp add: parseControlWord_def)

lemma parseControlSymbol_stack [simp]:
  "groupsInitialStates (parseControlSymbol dec p s v) = groupsInitialStates p"
  by (simp add: parseControlSymbol_def Let_def split: option.splits)

lemma parseText_stack [simp]: "groupsInitialStates (parseText dec p t) = groupsInitialStates p"
  by (simp add: parseText_def)

lemma fontTableChild_stack [simp]: "groupsInitialStates (fontTableChild p c) = groupsInitialStates p"
  by (cases c) (simp_all add: parseFontInfoGroup_def)

lemma foldl_fontTableChild_stack:
  "groupsInitialStates (foldl fontTableChild p cs) = groupsInitialStates p"
  by (induction cs arbitrary: p) simp_all

lemma parseFontTableGroup_stack [simp]:
  "groupsInitialStates (parseFontTableGroup p cs) = groupsInitialStates p"
  by (simp add: parseFontTableGroup_def foldl_fontTableChild_stack)

lemma parseColorTableGroup_stack [simp]:
  "groupsInitialStates (parseColorTableGroup p cs) = groupsInitialStates p"
  by (simp add: parseColorTableGroup_def)

lemma enterGroup_stack:
  "groupsInitialStates (enterGroup p) = groupsInitialStates p @ [NewRtfState]"
  by (simp add: enterGroup_def Let_def copy_is_new)

lemma leaveGroup_after_enter:
  "groupsInitialStates p2 = st @ [s] \<Longrightarrow>
   \<exists>p3. leaveGroup b p2 = Some p3 \<and> groupsInitialStates p3 = st \<and> groupCurrentState p3 = s"
  by (simp add: leaveGroup_def Let_def)

lemma walk_preserves_stack:
  "\<exists>p'. parseElement dec p e = Some p' \<and> groupsInitialStates p' = groupsInitialStates p"
  "\<exists>p'. parseGroup dec p children = Some p' \<and> groupsInitialStates p' = groupsInitialStates p"
  "\<exists>p'. parseChildren dec p children = Some p' \<and> groupsInitialStates p' = groupsInitialStates p"
proof (induction dec p e and dec p children and dec p children
    rule: parseElement_parseGroup_parseChildren.induct)
  case (1 dec p children)
  then show ?case by simp
next
  case (2 dec p symbol parameter)
  show ?case by simp
next
  case (3 dec p word parameter)
  show ?case by simp
next
  case (4 dec p text_content)
  show ?case by simp
next
  case (5 dec p children)
  obtain a b p1 where gh: "groupHeader p children = (a, b, p1)"
    by (cases "groupHeader p children") auto
  note st = groupHeader_stack[OF gh]
  show ?case
  proof (cases "IsFontTable children \<or> IsColorTable children \<or> isIgnoredGroup children")
    case True
    with gh st show ?thesis by auto
  next
    case False
    with 5[OF gh[symmetric] refl] obtain p2 where
      p2: "parseChildren dec (enterGroup p1) children = Some p2"
        "groupsInitialStates p2 = groupsInitialStates (enterGroup p1)"
      by auto
    from p2(2) have "groupsInitialStates p2 = groupsInitialStates p @ [NewRtfState]"
      by (simp add: enterGroup_stack st)
    from leaveGroup_after_enter[OF this, of b] obtain p3 where
      "leaveGroup b p2 = Some p3" "groupsInitialStates p3 = groupsInitialStates p" by auto
    with False gh p2 show ?thesis by simp
  qed
next
  case (6 dec p)
  show ?case by simp
next
  case (7 dec p child rest)
  from 7(1) obtain p1 where p1: "parseElement dec p child = Some p1"
    "groupsInitialStates p1 = groupsInitialStates p" by auto
  from 7(2)[OF p1(1)] p1 show ?case by auto
qed


lemma parseGroup_leaves_empty_state:
  assumes "\<not> IsFontTable children" "\<not> IsColorTable children" "\<not> isIgnoredGroup children"
  shows "\<exists>p'. parseGroup dec p children = Some p' \<and> groupCurrentState p' = NewRtfState"
proof -
  obtain a b p1 where gh: "groupHeader p children = (a, b, p1)"
    by (cases "groupHeader p children") auto
  from walk_preserves_stack(3)[of dec "enterGroup p1" children] obtain p2 where
    p2: "parseChildren dec (enterGroup p1) children = Some p2"
      "groupsInitialStates p2 = groupsInitialStates p1 @ [NewRtfState]"
    by (auto simp: enterGroup_stack)
  from leaveGroup_after_enter[OF p2(2), of b] obtain p3 where
    "leaveGroup b p2 = Some p3" "groupCurrentState p3 = NewRtfState" by auto
  with assms gh p2 show ?thesis by simp
qed

lemma not_special_simps:
  "\<not> IsFontTable (RtfText t # cs)" "\<not> IsColorTable (RtfText t # cs)" "\<not> isIgnoredGroup (RtfText t # cs)"
  "\<not> IsDestination (RtfText t # cs)"
  "\<not> IsFontTable (RtfControlWord ''rtf'' v # cs)" "\<not> IsColorTable (RtfControlWord ''rtf'' v # cs)"
  "\<not> isIgnoredGroup (RtfControlWord ''rtf'' v # cs)" "\<not> IsDestination (RtfControlWord ''rtf'' v # cs)"
  by (simp_all add: IsFontTable_def IsColorTable_def isIgnoredGroup_def IsStylesheet_def IsTrackChanges_def
      IsInfo_def IsListtables_def IsFilesTable_def IsDestination_def)

text \<open>
  Claim C1 says that the character-property state is restored on group exit: after a
  group's children have been walked the current state map is the one in effect at group
  entry.  \<^verbatim>\<open>parseGroup\<close> saves \<^verbatim>\<open>p.groupCurrentState.copy()\<close> and reinstates it,
  and \<^verbatim>\<open>copy\<close> is documented as "make a copy of the structure", but its loop ranges
  over the new, empty map, so what is saved and reinstated is always the empty state
  (\<open>parseGroup_leaves_empty_state\<close>).  Entering the group \<^verbatim>\<open>{x}\<close> with font 2 selected,
  the walk ends with no font at all; and in the document
  \<^verbatim>\<open>{\rtf1\htmlrtf1{x}y}\<close> the suppression set before the inner group is gone after it,
  so the text \<open>y\<close> is written.
\<close>

theorem group_exit_loses_entry_state:
  "(\<exists>p'. parseElement identityDecoder insideRootWithFont2 (RtfGroup [RtfText ''x'']) = Some p'
         \<and> states (groupCurrentState p') ''f'' = None)
   \<and> states (groupCurrentState insideRootWithFont2) ''f'' = Some ''2''
   \<and> Parse identityDecoder (emptyInterpreter ''span'')
        [RtfControlWord ''rtf'' ''1'', RtfControlWord ''htmlrtf'' ''1'',
         RtfGroup [RtfText ''x''], RtfText ''y''] = Parsed ''y''"
proof -
  have 1: "\<exists>p'. parseElement identityDecoder insideRootWithFont2 (RtfGroup [RtfText ''x'']) = Some p'
         \<and> states (groupCurrentState p') ''f'' = None"
    using parseGroup_leaves_empty_state[of "[RtfText ''x'']" identityDecoder insideRootWithFont2]
    by (auto simp: not_special_simps NewRtfState_def)
  have 2: "states (groupCurrentState insideRootWithFont2) ''f'' = Some ''2''"
    by (simp add: insideRootWithFont2_def)
  have 3: "Parse identityDecoder (emptyInterpreter ''span'')
        [RtfControlWord ''rtf'' ''1'', RtfControlWord ''htmlrtf'' ''1'',
         RtfGroup [RtfText ''x''], RtfText ''y''] = Parsed ''y''"
    by (simp add: Parse_def IsValid_def not_special_simps groupHeader_def enterGroup_def leaveGroup_def
        leaveHtmlTag_def emptyInterpreter_def parseControlWord_def parseText_def updateState_def
        DetectWordState_def htmlrtfOn_def stateExists_def stateValue_def copy_is_new NewRtfState_def
        WriteString_def ConvertToUtf8_def decoderOf_def identityDecoder_def Let_def)
  from 1 2 3 show ?thesis by blast
qed


subsection \<open>Control words that update the state\<close>

lemma updateState_value_word:
  "word = ''f'' \<or> word = ''fs'' \<Longrightarrow>
   updateState p word parameter =
     p\<lparr>groupCurrentState := (groupCurrentState p)\<lparr>states := (states (groupCurrentState p))(word \<mapsto> parameter)\<rparr>\<rparr>"
  by (elim disjE) (simp_all add: updateState_def DetectWordState_def Let_def)

lemma parseControlWord_f:
  "\<not> insideHtmlTagGroup p > 0 \<Longrightarrow> parseControlWord p ''f'' parameter = updateState p ''f'' parameter"
  by (simp add: parseControlWord_def)

lemma parseControlWord_fs:
  "\<not> insideHtmlTagGroup p > 0 \<Longrightarrow> \<not> htmlrtfOn p \<Longrightarrow>
   parseControlWord p ''fs'' parameter = updateState p ''fs'' parameter"
  by (simp add: parseControlWord_def)

lemma parseControlWord_value_words:
  assumes "\<not> insideHtmlTagGroup p > 0" "\<not> htmlrtfOn p" "word = ''f'' \<or> word = ''fs''"
  shows "parseControlWord p word parameter =
     p\<lparr>groupCurrentState := (groupCurrentState p)\<lparr>states := (states (groupCurrentState p))(word \<mapsto> parameter)\<rparr>\<rparr>"
  using assms(3) updateState_value_word[OF assms(3), of p parameter]
    parseControlWord_f[OF assms(1), of parameter] parseControlWord_fs[OF assms(1,2), of parameter]
  by (elim disjE) simp_all

lemma parseControlWord_other_listed_words:
  assumes "\<not> insideHtmlTagGroup p > 0"
    and "word \<in> set [''b'', ''i'', ''ul'', ''strike'', ''super'', ''v'', ''cf'', ''cb'', ''chcfpat'', ''chcbpat'', ''highlight'']"
  shows "parseControlWord p word parameter = p"
proof -
  from assms(2) have "word = ''b'' \<or> word = ''i'' \<or> word = ''ul'' \<or> word = ''strike''
    \<or> word = ''super'' \<or> word = ''v'' \<or> word = ''cf'' \<or> word = ''cb'' \<or> word = ''chcfpat''
    \<or> word = ''chcbpat'' \<or> word = ''highlight''"
    by simp
  then show ?thesis
    using assms(1) by (elim disjE) (simp_all add: parseControlWord_def)
qed


lemma parseControlWord_htmlrtf_flag:
  "states (groupCurrentState (parseControlWord p ''htmlrtf'' parameter)) ''htmlrtf''
   = Some (if parameter = ''0'' then ''0'' else ''1'')"
  by (simp add: parseControlWord_def updateState_def DetectWordState_def Let_def)

text \<open>
  Claim C3, as amended.  Outside an \<^verbatim>\<open>htmltag\<close> destination and outside
  \<^verbatim>\<open>htmlrtf\<close> suppression, the control words \<^verbatim>\<open>\f\<close> and \<^verbatim>\<open>\fs\<close> set the entry
  of that word in the current character-property state to the word's parameter string.
  The other listed words (\<^verbatim>\<open>\b\<close>, \<^verbatim>\<open>\i\<close>, \<^verbatim>\<open>\ul\<close>, \<^verbatim>\<open>\strike\<close>,
  \<^verbatim>\<open>\super\<close>, \<^verbatim>\<open>\v\<close>, \<^verbatim>\<open>\cf\<close>, \<^verbatim>\<open>\cb\<close>, \<^verbatim>\<open>\chcfpat\<close>,
  \<^verbatim>\<open>\chcbpat\<close>, \<^verbatim>\<open>\highlight\<close>) are not dispatched to \<^verbatim>\<open>updateState\<close> and leave
  the interpreter as it is.  The one flag-style word that is processed is
  \<^verbatim>\<open>\htmlrtf\<close>: the parameter string \<^verbatim>\<open>0\<close> gives \<^verbatim>\<open>0\<close> (off), any other
  parameter string, the absent one included, gives \<^verbatim>\<open>1\<close> (on).
\<close>

theorem only_f_fs_update_state:
  "(\<not> insideHtmlTagGroup p > 0 \<and> \<not> htmlrtfOn p \<and> (word = ''f'' \<or> word = ''fs'') \<longrightarrow>
      parseElement dec p (RtfControlWord word parameter) =
        Some (p\<lparr>groupCurrentState :=
               (groupCurrentState p)\<lparr>states := (states (groupCurrentState p))(word \<mapsto> parameter)\<rparr>\<rparr>))
   \<and> (\<not> insideHtmlTagGroup p > 0
        \<and> word \<in> set [''b'', ''i'', ''ul'', ''strike'', ''super'', ''v'', ''cf'', ''cb'',
                        ''chcfpat'', ''chcbpat'', ''highlight''] \<longrightarrow>
      parseElement dec p (RtfControlWord word parameter) = Some p)
   \<and> states (groupCurrentState (parseControlWord p ''htmlrtf'' parameter)) ''htmlrtf''
        = Some (if parameter = ''0'' then ''0'' else ''1'')"
proof (intro conjI impI)
  assume "\<not> insideHtmlTagGroup p > 0 \<and> \<not> htmlrtfOn p \<and> (word = ''f'' \<or> word = ''fs'')"
  then show "parseElement dec p (RtfControlWord word parameter) =
        Some (p\<lparr>groupCurrentState :=
               (groupCurrentState p)\<lparr>states := (states (groupCurrentState p))(word \<mapsto> parameter)\<rparr>\<rparr>)"
    using parseControlWord_value_words[of p word parameter] by simp
next
  assume "\<not> insideHtmlTagGroup p > 0
        \<and> word \<in> set [''b'', ''i'', ''ul'', ''strike'', ''super'', ''v'', ''cf'', ''cb'',
                        ''chcfpat'', ''chcbpat'', ''highlight'']"
  then have "parseControlWord p word parameter = p"
    using parseControlWord_other_listed_words[of p word parameter] by blast
  then show "parseElement dec p (RtfControlWord word parameter) = Some p"
    by (simp only: parseElement.simps)
next
  show "states (groupCurrentState (parseControlWord p ''htmlrtf'' parameter)) ''htmlrtf''
        = Some (if parameter = ''0'' then ''0'' else ''1'')"
    by (rule parseControlWord_htmlrtf_flag)
qed

text \<open>
  Claim C3 as stated fails: processing \<^verbatim>\<open>\b1\<close> in a fresh interpreter does not turn
  the entry \<^verbatim>\<open>b\<close> on.
\<close>

theorem bold_does_not_update_state:
  "\<not> (states (groupCurrentState (parseControlWord (emptyInterpreter ''span'') ''b'' ''1'')) ''b'' = Some ''1'')"
  by (simp add: parseControlWord_def emptyInterpreter_def htmlrtfOn_def stateExists_def NewRtfState_def)

theorem only_f_fs_update_state_witness:
  "parseElement identityDecoder (emptyInterpreter ''span'') (RtfControlWord ''fs'' ''24'')
     = Some ((emptyInterpreter ''span'')\<lparr>groupCurrentState := \<lparr>states = [''fs'' \<mapsto> ''24'']\<rparr>\<rparr>)
   \<and> parseElement identityDecoder (emptyInterpreter ''span'') (RtfControlWord ''b'' '''')
     = Some (emptyInterpreter ''span'')"
proof -
  have h: "\<not> insideHtmlTagGroup (emptyInterpreter ''span'') > 0" "\<not> htmlrtfOn (emptyInterpreter ''span'')"
    by (simp_all add: emptyInterpreter_def htmlrtfOn_def stateExists_def NewRtfState_def)
  have e: "groupCurrentState (emptyInterpreter ''span'') = \<lparr>states = Map.empty\<rparr>"
    by (simp add: emptyInterpreter_def NewRtfState_def)
  from only_f_fs_update_state[of "emptyInterpreter ''span''" "''fs''" identityDecoder "''24''"] h e
  have 1: "parseElement identityDecoder (emptyInterpreter ''span'') (RtfControlWord ''fs'' ''24'')
     = Some ((emptyInterpreter ''span'')\<lparr>groupCurrentState := \<lparr>states = [''fs'' \<mapsto> ''24'']\<rparr>\<rparr>)"
    by simp
  from only_f_fs_update_state[of "emptyInterpreter ''span''" "''b''" identityDecoder "''''"] h
  have 2: "parseElement identityDecoder (emptyInterpreter ''span'') (RtfControlWord ''b'' '''')
     = Some (emptyInterpreter ''span'')"
    by simp
  from 1 2 show ?thesis by simp
qed

subsection \<open>Suppression by \<^verbatim>\<open>htmlrtf\<close>\<close>

lemma htmlrtfOn_iff: "htmlrtfOn p \<longleftrightarrow> states (groupCurrentState p) ''htmlrtf'' = Some ''1''"
  by (auto simp: htmlrtfOn_def stateExists_def stateValue_def split: option.splits)

lemma suppressed_htmlrtf_word:
  assumes "htmlrtfOn p" "parameter \<noteq> ''0''"
  shows "parseControlWord p ''htmlrtf'' parameter = p"
  using assms
  by (simp add: parseControlWord_def updateState_def DetectWordState_def Let_def htmlrtfOn_iff fun_upd_idem)

lemma suppressed_other_word:
  assumes "htmlrtfOn p" "\<not> insideHtmlTagGroup p > 0" "word \<noteq> ''htmlrtf''" "word \<noteq> ''f''"
  shows "parseControlWord p word parameter = p"
  using assms by (simp add: parseControlWord_def)


lemma suppressed_f_word:
  assumes "\<not> insideHtmlTagGroup p > 0"
  shows "parseControlWord p ''f'' parameter =
     p\<lparr>groupCurrentState := (groupCurrentState p)\<lparr>states := (states (groupCurrentState p))(''f'' \<mapsto> parameter)\<rparr>\<rparr>"
  using assms by (simp add: parseControlWord_def updateState_def DetectWordState_def Let_def)

lemma suppressed_token:
  assumes on: "htmlrtfOn p" and out: "\<not> insideHtmlTagGroup p > 0" and tok: "keepsSuppression e"
  shows "\<exists>s. parseElement dec p e = Some (p\<lparr>groupCurrentState := s\<rparr>)
     \<and> states s ''htmlrtf'' = Some ''1''
     \<and> (\<forall>w. w \<noteq> ''f'' \<longrightarrow> states s w = states (groupCurrentState p) w)"
proof -
  have same: "parseElement dec p e = Some p \<Longrightarrow> ?thesis"
    using on by (intro exI[of _ "groupCurrentState p"]) (simp add: htmlrtfOn_iff)
  show ?thesis
  proof (cases e)
    case (RtfGroup x1)
    with tok show ?thesis by simp
  next
    case (RtfControlWord word parameter)
    show ?thesis
    proof (cases "word = ''htmlrtf''")
      case True
      with tok RtfControlWord have "parameter \<noteq> ''0''" by simp
      with True on RtfControlWord show ?thesis by (intro same) (simp add: suppressed_htmlrtf_word)
    next
      case nh: False
      show ?thesis
      proof (cases "word = ''f''")
        case True
        with on out RtfControlWord show ?thesis
          by (intro exI[of _ "(groupCurrentState p)\<lparr>states := (states (groupCurrentState p))(''f'' \<mapsto> parameter)\<rparr>"])
            (simp add: suppressed_f_word htmlrtfOn_iff)
      next
        case False
        with nh on out RtfControlWord show ?thesis by (intro same) (simp add: suppressed_other_word)
      qed
    qed
  next
    case (RtfControlSymbol x31 x32)
    with on show ?thesis by (intro same) (simp add: parseControlSymbol_def)
  next
    case (RtfText x4)
    with on show ?thesis by (intro same) (simp add: parseText_def)
  qed
qed

lemma suppressed_run:
  assumes "htmlrtfOn p" "\<not> insideHtmlTagGroup p > 0" "list_all keepsSuppression tokens"
  shows "\<exists>s. parseChildren dec p tokens = Some (p\<lparr>groupCurrentState := s\<rparr>)
     \<and> states s ''htmlrtf'' = Some ''1''
     \<and> (\<forall>w. w \<noteq> ''f'' \<longrightarrow> states s w = states (groupCurrentState p) w)"
  using assms
proof (induction tokens arbitrary: p)
  case Nil
  then show ?case by (intro exI[of _ "groupCurrentState p"]) (simp add: htmlrtfOn_iff)
next
  case (Cons e tokens)
  from Cons.prems have e: "keepsSuppression e" and rest: "list_all keepsSuppression tokens" by simp_all
  from suppressed_token[OF Cons.prems(1,2) e, of dec] obtain s1 where
    p1: "parseElement dec p e = Some (p\<lparr>groupCurrentState := s1\<rparr>)"
      "states s1 ''htmlrtf'' = Some ''1''"
      "\<forall>w. w \<noteq> ''f'' \<longrightarrow> states s1 w = states (groupCurrentState p) w"
    by blast
  let ?p1 = "p\<lparr>groupCurrentState := s1\<rparr>"
  from p1(2) have on1: "htmlrtfOn ?p1" by (simp add: htmlrtfOn_iff)
  from Cons.prems(2) have out1: "\<not> insideHtmlTagGroup ?p1 > 0" by simp
  from Cons.IH[OF on1 out1 rest] obtain s2 where
    p2: "parseChildren dec ?p1 tokens = Some (?p1\<lparr>groupCurrentState := s2\<rparr>)"
      "states s2 ''htmlrtf'' = Some ''1''"
      "\<forall>w. w \<noteq> ''f'' \<longrightarrow> states s2 w = states (groupCurrentState ?p1) w"
    by blast
  from p1 p2 show ?case by (intro exI[of _ s2]) simp
qed

lemma htmlrtf0_turns_off: "\<not> htmlrtfOn (parseControlWord p ''htmlrtf'' ''0'')"
  by (simp add: parseControlWord_def updateState_def DetectWordState_def Let_def htmlrtfOn_iff)


text \<open>
  What holds of suppression is \<open>suppressed_run\<close>: a run of text runs, control words and
  control symbols with no \<^verbatim>\<open>\htmlrtf0\<close> among them leaves the output and every field
  but the font entry as they were.  A nested group in the run breaks it.
\<close>

lemma suppressed_nested_group:
  assumes "\<not> IsFontTable children" "\<not> IsColorTable children" "\<not> isIgnoredGroup children"
  shows "\<exists>p'. parseElement dec p (RtfGroup children) = Some p' \<and> \<not> htmlrtfOn p'"
proof -
  from assms obtain p' where "parseGroup dec p children = Some p'" "groupCurrentState p' = NewRtfState"
    using parseGroup_leaves_empty_state[of children dec p] by blast
  then show ?thesis
    by (intro exI[of _ p']) (simp add: htmlrtfOn_iff NewRtfState_def)
qed

section \<open>Properties of the tokenizer\<close>

subsection \<open>The depth of the \<^verbatim>\<open>uc\<close> stack\<close>



lemma reader_update_depthInv [simp]: "depthInv (s\<lparr>reader := rd\<rparr>) = depthInv s"
  by (simp add: depthInv_def)











subsection \<open>Evaluating the tokenizer on concrete documents\<close>

lemmas tok_eval =
  ParseBytes_def newRtfStructure_def Parse_tok.simps parseStep_def parseControl_def
  parseControlWord_tok_def parseControlSymbol_tok_def parseText_tok_def
  parseTextLoop.simps parseTextStep_def readLetters.simps readLettersStep_def
  readDigits.simps readDigitsStep_def readSign_def readSpace_def readHexParameter_def
  skipFallback.simps skipFallbackStep_def int64_decrement_def readThree_def
  startGroup_def endGroup_def addChild_def
  ReadByte_def UnreadByte_def Peek_def ReadRune_def DecodeRune_def EncodeRune_def string_of_byte_def
  ByteIsAsciiLetter_def ByteIsDigit_def ByteIsHexDigit_def isUpper_def isLower_def isDecimalDigit_def
  Atoi_def decimalValue_def Root_def Let_def

lemma char_of_numeral_eval: "char_of (numeral n :: nat) = Char (bit (numeral n :: nat) 0) (bit (numeral n :: nat) 1)
  (bit (numeral n :: nat) 2) (bit (numeral n :: nat) 3) (bit (numeral n :: nat) 4) (bit (numeral n :: nat) 5)
  (bit (numeral n :: nat) 6) (bit (numeral n :: nat) 7)"
  by (simp add: char_of_def)




lemma ParseBytes_rtf1_nested:
  "\<exists>s. ParseBytes (''{'' @ backslash # ''rtf1{'' @ backslash # ''uc2 a}b}'') = Some s
     \<and> openGroups s = []
     \<and> Root s = Some [RtfControlWord ''rtf'' ''1'',
                       RtfGroup [RtfControlWord ''uc'' ''2'', RtfText ''a''], RtfText ''b'']"
  by (simp add: tok_eval char_of_numeral_eval bit_numeral_simps bit_Suc_0_iff)


section \<open>The tokenizer on balanced documents\<close>

subsection \<open>Plain bytes and runes\<close>






















lemma DecodeRune_ascii: "(of_char c :: nat) < 0x80 \<Longrightarrow> DecodeRune (c # cs) = (of_char c, 1)"
  by (simp add: DecodeRune_def)


lemma ReadRune_backslash:
  assumes "unread rd = backslash # cs"
  shows "\<exists>rd1. ReadRune rd = (Some 0x5C, rd1) \<and> unread rd1 = cs"
  using assms by (simp add: ReadRune_def DecodeRune_ascii)


subsection \<open>Small readers\<close>










subsection \<open>Escapes\<close>






lemma fallbackPlain_brace: "c = CHR ''{'' \<or> c = CHR ''}'' \<Longrightarrow> fallbackPlain (c # cs)"
  by (auto simp: fallbackPlain.simps(2))

subsection \<open>The skip loop\<close>






subsection \<open>Text\<close>







subsection \<open>Control symbols and control words\<close>






subsection \<open>The loop of \<^verbatim>\<open>Parse\<close> on a balanced document\<close>








subsection \<open>Suppression across a nested group\<close>

text \<open>
  Claim C4 says that while \<^verbatim>\<open>htmlrtf\<close> is on every following token is suppressed
  until a matching \<^verbatim>\<open>\htmlrtf0\<close> or the exit of the group turns suppression off.  In
  \<^verbatim>\<open>{\rtf1\fromhtml1\htmlrtf1{x}y}\<close> suppression is turned on in the root group and
  neither \<^verbatim>\<open>\htmlrtf0\<close> nor the end of the root precedes the text \<open>y\<close>, so nothing
  may be written.  The nested group \<^verbatim>\<open>{x}\<close> is walked with suppression still on
  (\<open>x\<close> is not written), but its exit reinstates the state that \<^verbatim>\<open>copy\<close> saved,
  which is the empty one, not the state of the root: suppression is off after it and
  \<open>y\<close> is written.  The defect is the one of claim C1, the loop of \<^verbatim>\<open>copy\<close> that
  ranges over the new map.
\<close>

theorem nested_group_exit_ends_suppression:
  "(\<exists>s. ParseBytes (''{'' @ backslash # ''rtf1'' @ backslash # ''fromhtml1'' @ backslash # ''htmlrtf1{x}y}'')
          = Some s
        \<and> Root s = Some [RtfControlWord ''rtf'' ''1'', RtfControlWord ''fromhtml'' ''1'',
                          RtfControlWord ''htmlrtf'' ''1'', RtfGroup [RtfText ''x''], RtfText ''y''])
   \<and> Parse identityDecoder (emptyInterpreter ''span'')
        [RtfControlWord ''rtf'' ''1'', RtfControlWord ''fromhtml'' ''1'',
         RtfControlWord ''htmlrtf'' ''1'', RtfGroup [RtfText ''x''], RtfText ''y''] = Parsed ''y''
   \<and> htmlrtfOn insideRootSuppressed
   \<and> (\<exists>p'. parseElement identityDecoder insideRootSuppressed (RtfGroup [RtfText ''x'']) = Some p'
          \<and> content p' = []
          \<and> \<not> htmlrtfOn p'
          \<and> content (parseText identityDecoder p' ''y'') = ''y'')"
proof -
  have 1: "\<exists>s. ParseBytes (''{'' @ backslash # ''rtf1'' @ backslash # ''fromhtml1'' @ backslash # ''htmlrtf1{x}y}'')
          = Some s
        \<and> Root s = Some [RtfControlWord ''rtf'' ''1'', RtfControlWord ''fromhtml'' ''1'',
                          RtfControlWord ''htmlrtf'' ''1'', RtfGroup [RtfText ''x''], RtfText ''y'']"
    by (simp add: tok_eval char_of_numeral_eval bit_numeral_simps bit_Suc_0_iff)
  have 2: "Parse identityDecoder (emptyInterpreter ''span'')
        [RtfControlWord ''rtf'' ''1'', RtfControlWord ''fromhtml'' ''1'',
         RtfControlWord ''htmlrtf'' ''1'', RtfGroup [RtfText ''x''], RtfText ''y''] = Parsed ''y''"
    by (simp add: Parse_def IsValid_def not_special_simps groupHeader_def enterGroup_def leaveGroup_def
        leaveHtmlTag_def emptyInterpreter_def parseControlWord_def parseText_def updateState_def
        DetectWordState_def htmlrtfOn_def stateExists_def stateValue_def copy_is_new NewRtfState_def
        WriteString_def ConvertToUtf8_def decoderOf_def identityDecoder_def Let_def)
  have 3: "htmlrtfOn insideRootSuppressed"
    by (simp add: insideRootSuppressed_def htmlrtfOn_iff)
  have 4: "\<exists>p'. parseElement identityDecoder insideRootSuppressed (RtfGroup [RtfText ''x'']) = Some p'
          \<and> content p' = []
          \<and> \<not> htmlrtfOn p'
          \<and> content (parseText identityDecoder p' ''y'') = ''y''"
    by (simp add: not_special_simps groupHeader_def enterGroup_def leaveGroup_def
        leaveHtmlTag_def emptyInterpreter_def insideRootSuppressed_def parseText_def
        htmlrtfOn_def stateExists_def stateValue_def copy_is_new NewRtfState_def
        WriteString_def ConvertToUtf8_def decoderOf_def identityDecoder_def Let_def)
  from 1 2 3 4 show ?thesis by blast
qed

subsection \<open>The depth of the two stacks at the end of a document\<close>

text \<open>
  A document outside the balanced ones of the statement below: in \<^verbatim>\<open>{\rtf1\u1\{x}\<close>
  the fallback of \<^verbatim>\<open>\u1\<close> is the escaped brace \<^verbatim>\<open>\{\<close>.  The skip loop (see claim
  C5) takes the backslash alone, the brace then opens a group, and the input ends with the
  root still open and one frame on the \<^verbatim>\<open>uc\<close> stack.
\<close>

lemma escaped_brace_after_u_leaves_root_open:
  "\<not> wellFormed (''{'' @ backslash # ''rtf1'' @ backslash # ''u1'' @ backslash # ''{x}'')
   \<and> (\<exists>s. ParseBytes (''{'' @ backslash # ''rtf1'' @ backslash # ''u1'' @ backslash # ''{x}'') = Some s
          \<and> uc s = [1] \<and> length (openGroups s) = 1)"
proof -
  have "\<not> wellFormed (''{'' @ backslash # ''rtf1'' @ backslash # ''u1'' @ backslash # ''{x}'')"
    by (simp add: wellFormed_def balancedFrom.simps(2) fallbackPlain.simps(2) plainByte_def
        ByteIsAsciiLetter_def isUpper_def isLower_def)
  moreover have "\<exists>s. ParseBytes (''{'' @ backslash # ''rtf1'' @ backslash # ''u1'' @ backslash # ''{x}'') = Some s
          \<and> uc s = [1] \<and> length (openGroups s) = 1"
    by (simp add: tok_eval char_of_numeral_eval bit_numeral_simps bit_Suc_0_iff)
  ultimately show ?thesis by blast
qed




subsection \<open>The skip after \<^verbatim>\<open>\u\<close>\<close>

text \<open>
  Claim C5 says that after \<^verbatim>\<open>\uN\<close> the tokenizer discards exactly \<^verbatim>\<open>uc\<close> units of
  fallback data, where a control word or control symbol counts as one unit in its
  entirety.  The comment in \<^verbatim>\<open>parseControlWord\<close> says the same (the reader ignores the
  next N characters, and any control word or symbol is a single character).  The loop
  reads one rune per unit and recognises only \<^verbatim>\<open>\'\<close> after a backslash, so of
  \<^verbatim>\<open>\par\<close> it discards the backslash alone and \<^verbatim>\<open>par x\<close> becomes text; and it tests
  the counter after the first unit has been read, so with \<^verbatim>\<open>\uc0\<close> one character is
  discarded where none should be.
\<close>

theorem skip_takes_backslash_only_and_one_unit_for_uc0:
  "unread (skipFallback \<lparr>unread = backslash # ''par x}'', lastByte = None\<rparr> 1) = ''par x}''
   \<and> unread (skipFallback \<lparr>unread = ''ab}'', lastByte = None\<rparr> 0) = ''b}''
   \<and> (\<exists>s. ParseBytes (''{'' @ backslash # ''u233'' @ backslash # ''par x}'') = Some s
          \<and> Root s = Some [RtfControlWord ''u'' ''233'', RtfText ''par x''])
   \<and> (\<exists>s. ParseBytes (''{'' @ backslash # ''uc0'' @ backslash # ''u233ab}'') = Some s
          \<and> Root s = Some [RtfControlWord ''uc'' ''0'', RtfControlWord ''u'' ''233'', RtfText ''b''])"
  by (simp add: tok_eval char_of_numeral_eval bit_numeral_simps bit_Suc_0_iff)

subsection \<open>The parameter of \<^verbatim>\<open>\'\<close>\<close>

text \<open>
  What holds of the parameter of \<^verbatim>\<open>\'\<close>: it is the next bytes of the input, at most
  two, each accepted by \<^verbatim>\<open>ByteIsHexDigit\<close>; and a single accepted byte at the end of
  the input gives a one-character parameter.
\<close>

lemma readHexParameter_prefix:
  "readHexParameter rd = (rd', parameter) \<Longrightarrow>
   unread rd = parameter @ unread rd' \<and> length parameter \<le> 2 \<and> list_all ByteIsHexDigit parameter"
  by (auto simp: readHexParameter_def Peek_def ReadByte_def split: if_splits list.splits)

lemma readHexParameter_one_digit_at_end:
  "ByteIsHexDigit h \<Longrightarrow> fst (readHexParameter \<lparr>unread = [h], lastByte = lb\<rparr>) = \<lparr>unread = [], lastByte = None\<rparr>
     \<and> snd (readHexParameter \<lparr>unread = [h], lastByte = lb\<rparr>) = [h]"
  by (simp add: readHexParameter_def Peek_def ReadByte_def)

text \<open>
  Claim C10 says that after \<^verbatim>\<open>\'\<close> a byte is taken into the parameter only if it is a
  hexadecimal digit.  The test is the function \<^verbatim>\<open>ByteIsHexDigit\<close>, whose regular
  expression is \<^verbatim>\<open>[A-Za-z0-9]\<close>: it accepts every letter.  In \<^verbatim>\<open>{\'zq}\<close> the bytes
  \<open>z\<close> and \<open>q\<close> are consumed and the token is the control symbol \<^verbatim>\<open>'\<close> with the
  parameter \<open>zq\<close>.
\<close>

theorem quote_parameter_takes_any_letter:
  "ByteIsHexDigit (CHR ''z'')
   \<and> readHexParameter \<lparr>unread = ''zq}'', lastByte = None\<rparr>
       = (\<lparr>unread = ''}'', lastByte = Some (CHR ''q'')\<rparr>, ''zq'')
   \<and> (\<exists>s. ParseBytes (''{'' @ backslash # CHR 0x27 # ''zq}'') = Some s
          \<and> Root s = Some [RtfControlSymbol [CHR 0x27] ''zq''])"
  by (simp add: tok_eval char_of_numeral_eval bit_numeral_simps bit_Suc_0_iff)

end
